theory Spec2Isabelle
  imports Complex_Main
begin

section \<open>JavaScript values used by the device model service\<close>

text \<open>
  The service (\<^verbatim>\<open>DeviceModelService\<close>) and the route layer (\<^verbatim>\<open>ProvisioningModuleApi\<close>)
  are TypeScript. Three pieces of the language decide what the chunk loops do: the
  coercion \<^verbatim>\<open>Number(v)\<close> of an attribute value, \<^verbatim>\<open>Array.prototype.slice\<close>, and the
  truthiness test of a string. They are written out here as ECMAScript defines them.

  A JavaScript number is \<^verbatim>\<open>NaN\<close>, an infinity or a finite value. Finite values are kept
  exact (a rational); the rounding of a decimal literal to the nearest double is not
  modelled. Strings are byte strings, so the white space that \<^verbatim>\<open>Number\<close> strips is
  the ASCII part of it.
\<close>

datatype jsnum = NaN | Finite rat | PosInfinity | NegInfinity

text \<open>The value of an attribute as the repository hands it over: a string, \<^verbatim>\<open>null\<close>
  or \<^verbatim>\<open>undefined\<close>.\<close>

datatype jsval = Undefined | Null | Str string

definition is_digit :: "char \<Rightarrow> bool" where
  "is_digit c = (48 \<le> (of_char c :: nat) \<and> (of_char c :: nat) \<le> 57)"

definition is_space :: "char \<Rightarrow> bool" where
  "is_space c = ((of_char c :: nat) \<in> {9, 10, 11, 12, 13, 32})"

definition digit_val :: "char \<Rightarrow> nat" where
  "digit_val c =
     (let n = (of_char c :: nat) in
      if 48 \<le> n \<and> n \<le> 57 then n - 48
      else if 97 \<le> n \<and> n \<le> 102 then n - 87
      else if 65 \<le> n \<and> n \<le> 70 then n - 55
      else 16)"

definition digits_in :: "nat \<Rightarrow> string \<Rightarrow> bool" where
  "digits_in b s = (s \<noteq> [] \<and> list_all (\<lambda>c. digit_val c < b) s)"

definition radix_val :: "nat \<Rightarrow> string \<Rightarrow> nat" where
  "radix_val b s = foldl (\<lambda>a c. b * a + digit_val c) 0 s"

definition trim :: "string \<Rightarrow> string" where
  "trim s = rev (dropWhile is_space (rev (dropWhile is_space s)))"

text \<open>\<^verbatim>\<open>ExponentPart\<close>: nothing, or \<^verbatim>\<open>e\<close>/\<^verbatim>\<open>E\<close>, an optional sign and at least one digit.\<close>

definition exponent_part :: "string \<Rightarrow> int option" where
  "exponent_part s =
     (case s of
        [] \<Rightarrow> Some 0
      | c # t \<Rightarrow>
          if c = CHR ''e'' \<or> c = CHR ''E'' then
            (case t of
               [] \<Rightarrow> None
             | d # u \<Rightarrow>
                 if d = CHR ''+'' then
                   (if digits_in 10 u then Some (int (radix_val 10 u)) else None)
                 else if d = CHR ''-'' then
                   (if digits_in 10 u then Some (- int (radix_val 10 u)) else None)
                 else if digits_in 10 t then Some (int (radix_val 10 t)) else None)
          else None)"

definition pow10 :: "int \<Rightarrow> rat" where
  "pow10 e = (if 0 \<le> e then 10 ^ nat e else 1 / 10 ^ nat (- e))"

text \<open>\<^verbatim>\<open>StrUnsignedDecimalLiteral\<close>: \<^verbatim>\<open>Infinity\<close>, or digits with an optional fraction
  and exponent; at least one digit before or after the point.\<close>

definition unsigned_decimal :: "string \<Rightarrow> jsnum" where
  "unsigned_decimal s =
     (if s = ''Infinity'' then PosInfinity
      else
        let ip = takeWhile is_digit s;
            r = dropWhile is_digit s;
            fp = (case r of [] \<Rightarrow> [] | c # t \<Rightarrow> if c = CHR ''.'' then takeWhile is_digit t else []);
            r' = (case r of [] \<Rightarrow> [] | c # t \<Rightarrow> if c = CHR ''.'' then dropWhile is_digit t else r)
        in if ip = [] \<and> fp = [] then NaN
           else (case exponent_part r' of
                   None \<Rightarrow> NaN
                 | Some e \<Rightarrow>
                     Finite ((of_nat (radix_val 10 ip)
                              + of_nat (radix_val 10 fp) / 10 ^ length fp) * pow10 e)))"

definition negate :: "jsnum \<Rightarrow> jsnum" where
  "negate x =
     (case x of
        NaN \<Rightarrow> NaN
      | Finite q \<Rightarrow> Finite (- q)
      | PosInfinity \<Rightarrow> NegInfinity
      | NegInfinity \<Rightarrow> PosInfinity)"

text \<open>\<^verbatim>\<open>StringToNumber\<close>: the trimmed string is empty (0), a hexadecimal, octal or binary
  integer without sign, a signed decimal literal, or not a number.\<close>

definition StringToNumber :: "string \<Rightarrow> jsnum" where
  "StringToNumber s0 =
     (let s = trim s0 in
      case s of
        [] \<Rightarrow> Finite 0
      | c # t \<Rightarrow>
          if c = CHR ''+'' then unsigned_decimal t
          else if c = CHR ''-'' then negate (unsigned_decimal t)
          else if c = CHR ''0'' \<and> t \<noteq> [] \<and> hd t \<in> {CHR ''x'', CHR ''X''} then
            (if digits_in 16 (tl t) then Finite (of_nat (radix_val 16 (tl t))) else NaN)
          else if c = CHR ''0'' \<and> t \<noteq> [] \<and> hd t \<in> {CHR ''o'', CHR ''O''} then
            (if digits_in 8 (tl t) then Finite (of_nat (radix_val 8 (tl t))) else NaN)
          else if c = CHR ''0'' \<and> t \<noteq> [] \<and> hd t \<in> {CHR ''b'', CHR ''B''} then
            (if digits_in 2 (tl t) then Finite (of_nat (radix_val 2 (tl t))) else NaN)
          else unsigned_decimal s)"

text \<open>\<^verbatim>\<open>Number(v)\<close>: \<^verbatim>\<open>undefined\<close> is \<^verbatim>\<open>NaN\<close>, \<^verbatim>\<open>null\<close> is 0.\<close>

definition Number :: "jsval \<Rightarrow> jsnum" where
  "Number v = (case v of Undefined \<Rightarrow> NaN | Null \<Rightarrow> Finite 0 | Str s \<Rightarrow> StringToNumber s)"

text \<open>\<^verbatim>\<open>ToIntegerOrInfinity\<close>: \<^verbatim>\<open>NaN\<close> is 0, a finite value is truncated towards zero.\<close>

datatype extint = MinusInf | Whole int | PlusInf

definition ToIntegerOrInfinity :: "jsnum \<Rightarrow> extint" where
  "ToIntegerOrInfinity x =
     (case x of
        NaN \<Rightarrow> Whole 0
      | Finite q \<Rightarrow> Whole (if 0 \<le> q then \<lfloor>q\<rfloor> else \<lceil>q\<rceil>)
      | PosInfinity \<Rightarrow> PlusInf
      | NegInfinity \<Rightarrow> MinusInf)"

text \<open>The index a relative position denotes in an array of length \<open>len\<close>: a negative
  position counts from the end, and the result is clamped to \<open>0..len\<close>.\<close>

definition clamp_index :: "nat \<Rightarrow> extint \<Rightarrow> nat" where
  "clamp_index len r =
     (case r of
        MinusInf \<Rightarrow> 0
      | Whole i \<Rightarrow> if i < 0 then nat (max (int len + i) 0) else min (nat i) len
      | PlusInf \<Rightarrow> len)"

text \<open>\<^verbatim>\<open>xs.slice(start, end)\<close>; \<open>None\<close> is an \<^verbatim>\<open>end\<close> that is not passed.\<close>

definition slice :: "jsnum \<Rightarrow> jsnum option \<Rightarrow> 'a list \<Rightarrow> 'a list" where
  "slice start fin xs =
     (let len = length xs;
          k = clamp_index len (ToIntegerOrInfinity start);
          final = (case fin of None \<Rightarrow> len | Some e \<Rightarrow> clamp_index len (ToIntegerOrInfinity e))
      in take (final - k) (drop k xs))"

text \<open>A string is truthy unless it is \<^verbatim>\<open>null\<close> or empty.\<close>

definition truthy :: "string option \<Rightarrow> bool" where
  "truthy r = (case r of None \<Rightarrow> False | Some s \<Rightarrow> s \<noteq> [])"

section \<open>The device model service\<close>

text \<open>
  Modelled from the spec: the status enumeration \<^verbatim>\<open>SetVariableStatusEnumType\<close> is
  declared in \<^verbatim>\<open>@citrineos/base\<close>, outside the files modelled here. The spec
  names Accepted, Rejected and RebootRequired and leaves room for other device-defined
  statuses; the service compares a status with Rejected and RebootRequired only.
\<close>

datatype SetVariableStatusEnumType = Accepted | Rejected | RebootRequired | OtherStatus string

datatype AttributeEnumType = Actual | Target | MinSet | MaxSet

text \<open>The query handed to the repository, and the one field of an attribute record that
  the service reads (\<^verbatim>\<open>value\<close>).\<close>

record VariableAttributeQuerystring =
  stationId :: string
  component_name :: string
  variable_name :: string
  variable_instance :: string
  attr_type :: AttributeEnumType

record VariableAttribute =
  attr_value :: jsval

text \<open>The repository is a collaborator: what it answers to a query and the list of
  set-variable items it holds for a station are inputs of the model.\<close>

record 'a IDeviceModelRepository =
  readAllByQuerystring :: "VariableAttributeQuerystring \<Rightarrow> VariableAttribute list"
  readAllSetVariableByStationId :: "string \<Rightarrow> 'a list"

text \<open>\<^verbatim>\<open>getItemsPerMessageSetVariablesByStationId\<close>: \<open>None\<close> is \<^verbatim>\<open>null\<close>. With one record
  or more, the first one's value is coerced and returned.\<close>

definition getItemsPerMessageSetVariablesByStationId ::
  "'a IDeviceModelRepository \<Rightarrow> string \<Rightarrow> jsnum option" where
  "getItemsPerMessageSetVariablesByStationId repo sid =
     (let itemsPerMessageSetVariablesAttributes =
            readAllByQuerystring repo
              \<lparr>stationId = sid, component_name = ''DeviceDataCtrlr'',
               variable_name = ''ItemsPerMessage'', variable_instance = ''SetVariables'',
               attr_type = Actual\<rparr>
      in if length itemsPerMessageSetVariablesAttributes = 0 then None
         else Some (Number (attr_value (itemsPerMessageSetVariablesAttributes ! 0))))"

definition getItemsPerMessageGetVariablesByStationId ::
  "'a IDeviceModelRepository \<Rightarrow> string \<Rightarrow> jsnum option" where
  "getItemsPerMessageGetVariablesByStationId repo sid =
     (let itemsPerMessageGetVariablesAttributes =
            readAllByQuerystring repo
              \<lparr>stationId = sid, component_name = ''DeviceDataCtrlr'',
               variable_name = ''ItemsPerMessage'', variable_instance = ''GetVariables'',
               attr_type = Actual\<rparr>
      in if length itemsPerMessageGetVariablesAttributes = 0 then None
         else Some (Number (attr_value (itemsPerMessageGetVariablesAttributes ! 0))))"

text \<open>
  The callbacks of \<^verbatim>\<open>executeSetVariablesAfterBoot\<close>. A correlation id is fresh for each
  iteration (\<^verbatim>\<open>uuidv4()\<close>); the model numbers them 0, 1, 2, ... in the order they are
  minted. \<open>cacheCallback\<close> answers an id with the cached response string or \<^verbatim>\<open>null\<close>
  (\<open>None\<close>). \<open>setVariableResult\<close> stands for
  \<^verbatim>\<open>JSON.parse(s).setVariableResult\<close>, read as the list of the \<^verbatim>\<open>attributeStatus\<close> of
  its entries; it is \<open>None\<close> when \<^verbatim>\<open>JSON.parse\<close> throws, the field is not an array or an
  entry of it cannot be read, that is, whenever decoding and the \<^verbatim>\<open>forEach\<close> over the field
  end in an exception. The two callbacks of the service, \<^verbatim>\<open>cacheCallback\<close> and
  \<^verbatim>\<open>sendSetVariableRequest\<close>, are taken to return, as their types say.
\<close>

record callbacks =
  cacheCallback :: "nat \<Rightarrow> string option"
  setVariableResult :: "string \<Rightarrow> SetVariableStatusEnumType list option"

datatype error =
    ResponseNotFound
  | ResponseNotDecoded
  | StandardComponentStructureViolation

text \<open>The local variables of the loop, and three logs of what it did: the arguments
  of each call of \<^verbatim>\<open>sendSetVariableRequest\<close>, the ids read with \<^verbatim>\<open>cacheCallback\<close>, and
  the ids whose response was handed to \<^verbatim>\<open>JSON.parse\<close>.\<close>

record 'a loop_state =
  rejectedSetVariable :: bool
  rebootSetVariable :: bool
  setVariableData :: "'a list"
  sent :: "(nat \<times> 'a list \<times> jsnum) list"
  fetched :: "nat list"
  inspected :: "nat list"

text \<open>The body of the \<^verbatim>\<open>forEach\<close> over the results of one response.\<close>

definition forEach_body :: "'a loop_state \<Rightarrow> SetVariableStatusEnumType \<Rightarrow> 'a loop_state" where
  "forEach_body s result =
     (if result = Rejected then s\<lparr>rejectedSetVariable := True\<rparr>
      else if result = RebootRequired then s\<lparr>rebootSetVariable := True\<rparr>
      else s)"

text \<open>One iteration of the \<^verbatim>\<open>while\<close> loop: \<open>Inr\<close> is the state the next test of the loop
  condition sees (also after \<^verbatim>\<open>continue\<close>), \<open>Inl\<close> an exception and the state it
  leaves.\<close>

definition loop_body ::
  "callbacks \<Rightarrow> jsnum \<Rightarrow> 'a loop_state \<Rightarrow> (error \<times> 'a loop_state) + 'a loop_state" where
  "loop_body cb itemsPerMessageSetVariables s =
     (let correlationId = length (sent s);
          s1 = s\<lparr>sent := sent s @ [(correlationId, setVariableData s, itemsPerMessageSetVariables)]\<rparr>;
          s2 = s1\<lparr>setVariableData := slice itemsPerMessageSetVariables None (setVariableData s1)\<rparr>;
          setVariablesResponseJsonString = cacheCallback cb correlationId;
          s3 = s2\<lparr>fetched := fetched s2 @ [correlationId]\<rparr>
      in if truthy setVariablesResponseJsonString then
           if rejectedSetVariable s3 \<and> rebootSetVariable s3 then Inr s3
           else
             (let s4 = s3\<lparr>inspected := inspected s3 @ [correlationId]\<rparr> in
              case setVariableResult cb (the setVariablesResponseJsonString) of
                None \<Rightarrow> Inl (ResponseNotDecoded, s4)
              | Some results \<Rightarrow> Inr (foldl forEach_body s4 results))
         else Inl (ResponseNotFound, s3))"

text \<open>How a run ends. The loop may run forever, so it is given fuel, the number of
  iterations it may take; \<open>Running\<close> says that the loop has not ended after them, and the
  state is then the one after exactly that many iterations.\<close>

datatype outcome = Returned bool bool | Thrown error | Running

fun while_loop ::
  "callbacks \<Rightarrow> jsnum \<Rightarrow> nat \<Rightarrow> 'a loop_state \<Rightarrow> outcome \<times> 'a loop_state" where
  "while_loop cb n 0 s =
     (if length (setVariableData s) > 0 then (Running, s)
      else (Returned (rejectedSetVariable s) (rebootSetVariable s), s))"
| "while_loop cb n (Suc fuel) s =
     (if length (setVariableData s) > 0 then
        (case loop_body cb n s of
           Inl (err, s') \<Rightarrow> (Thrown err, s')
         | Inr s' \<Rightarrow> while_loop cb n fuel s')
      else (Returned (rejectedSetVariable s) (rebootSetVariable s), s))"

definition initial_state :: "'a list \<Rightarrow> 'a loop_state" where
  "initial_state items =
     \<lparr>rejectedSetVariable = False, rebootSetVariable = False, setVariableData = items,
      sent = [], fetched = [], inspected = []\<rparr>"

text \<open>\<^verbatim>\<open>executeSetVariablesAfterBoot\<close>, with the number of iterations it may take. The
  result is how it ends and the final state with its logs.\<close>

definition executeSetVariablesAfterBoot ::
  "'a IDeviceModelRepository \<Rightarrow> callbacks \<Rightarrow> string \<Rightarrow> nat \<Rightarrow> outcome \<times> 'a loop_state" where
  "executeSetVariablesAfterBoot repo cb sid fuel =
     (let items = readAllSetVariableByStationId repo sid;
          itemsPerMessageSetVariables =
            (case getItemsPerMessageSetVariablesByStationId repo sid of
               None \<Rightarrow> Finite (of_nat (length items))
             | Some n \<Rightarrow> n)
      in while_loop cb itemsPerMessageSetVariables fuel (initial_state items))"

text \<open>
  Modelled from the spec: the \<^verbatim>\<open>sendSetVariableRequest\<close> callback is supplied by the
  caller of the service, outside the files modelled here. It is handed the
  remaining items and the limit; the chunk it puts on the wire is the first
  \<^verbatim>\<open>itemsPerMessageSetVariables\<close> of them ("each no larger than the limit", "preserving
  original order"), the \<^verbatim>\<open>slice(0, itemsPerMessageSetVariables)\<close> that the route layer
  takes as well.
\<close>

definition chunk :: "nat \<times> 'a list \<times> jsnum \<Rightarrow> 'a list" where
  "chunk call = (case call of (correlationId, data, n) \<Rightarrow> slice (Finite 0) (Some n) data)"

section \<open>The route layer\<close>

text \<open>
  \<^verbatim>\<open>ProvisioningModuleApi.setVariables\<close> and \<^verbatim>\<open>getVariables\<close>. The payload of a
  confirmation is text or a list of items; \<open>None\<close> is a payload that is not set. Text is
  truthy unless empty, an array always.
\<close>

datatype 'a payload = Text string | Items "'a list"

record 'a IMessageConfirmation =
  success :: bool
  payload :: "'a payload option"

definition payload_truthy :: "'a payload option \<Rightarrow> bool" where
  "payload_truthy p =
     (case p of None \<Rightarrow> False | Some (Text t) \<Rightarrow> t \<noteq> [] | Some (Items xs) \<Rightarrow> True)"

text \<open>The module behind the endpoints: its repository query and \<^verbatim>\<open>sendCall\<close>, whose
  answer may differ from call to call (the calls are numbered 0, 1, 2, ...) and which is
  taken to return a confirmation, as its type says.\<close>

record 'a ProvisioningModule =
  readAllByQuery :: "VariableAttributeQuerystring \<Rightarrow> VariableAttribute list"
  sendCall :: "nat \<Rightarrow> 'a list \<Rightarrow> 'a IMessageConfirmation"

text \<open>The local \<^verbatim>\<open>finalMessageConfirmation\<close>, whose payload is only ever assigned
  arrays, and the log of the payloads handed to \<^verbatim>\<open>sendCall\<close>.
  \<open>requestSetVariableData\<close> is \<^verbatim>\<open>request.setVariableData\<close>, likewise for get.\<close>

record 'a api_state =
  final_success :: bool
  final_payload :: "'a list option"
  calls :: "'a list list"

text \<open>How an endpoint ends; \<open>Looping\<close> says that its loop has not ended after the
  iterations the fuel allows.\<close>

datatype 'a api_outcome = Confirmation "'a IMessageConfirmation" | Failure error | Looping

definition finalMessageConfirmation :: "'a api_state \<Rightarrow> 'a IMessageConfirmation" where
  "finalMessageConfirmation s =
     \<lparr>success = final_success s, payload = map_option Items (final_payload s)\<rparr>"

definition setVariables_body ::
  "'a ProvisioningModule \<Rightarrow> jsnum \<Rightarrow> 'a list \<Rightarrow> 'a api_state \<Rightarrow> 'a api_state" where
  "setVariables_body m itemsPerMessageSetVariables requestSetVariableData s =
     (let setVariableDataSubset = slice (Finite 0) (Some itemsPerMessageSetVariables) requestSetVariableData;
          messageConfirmation = sendCall m (length (calls s)) setVariableDataSubset;
          s1 = s\<lparr>calls := calls s @ [setVariableDataSubset]\<rparr>
      in if \<not> payload_truthy (payload messageConfirmation) then
           s1\<lparr>final_success := False,
              final_payload :=
                (case final_payload s1 of
                   Some xs \<Rightarrow> Some (xs @ setVariableDataSubset)
                 | None \<Rightarrow> Some setVariableDataSubset)\<rparr>
         else s1)"

fun setVariables_loop ::
  "'a ProvisioningModule \<Rightarrow> jsnum \<Rightarrow> 'a list \<Rightarrow> nat \<Rightarrow> 'a api_state
     \<Rightarrow> 'a api_outcome \<times> 'a api_state" where
  "setVariables_loop m n requestSetVariableData 0 s =
     (if length requestSetVariableData > 0 then (Looping, s)
      else (Confirmation (finalMessageConfirmation s), s))"
| "setVariables_loop m n requestSetVariableData (Suc fuel) s =
     (if length requestSetVariableData > 0 then
        setVariables_loop m n requestSetVariableData fuel (setVariables_body m n requestSetVariableData s)
      else (Confirmation (finalMessageConfirmation s), s))"

definition setVariables ::
  "'a ProvisioningModule \<Rightarrow> string \<Rightarrow> 'a list \<Rightarrow> nat \<Rightarrow> 'a api_outcome \<times> 'a api_state" where
  "setVariables m identifier requestSetVariableData fuel =
     (let itemsPerMessageSetVariablesAttributes =
            readAllByQuery m
              \<lparr>stationId = identifier, component_name = ''DeviceDataCtrlr'',
               variable_name = ''ItemsPerMessage'', variable_instance = ''SetVariables'',
               attr_type = Actual\<rparr>;
          s0 = \<lparr>final_success = True, final_payload = None, calls = []\<rparr>
      in if length itemsPerMessageSetVariablesAttributes = 1 then
           setVariables_loop m
             (Number (attr_value (itemsPerMessageSetVariablesAttributes ! 0)))
             requestSetVariableData fuel s0
         else if length itemsPerMessageSetVariablesAttributes = 0 then
           (Confirmation (sendCall m 0 requestSetVariableData), s0\<lparr>calls := [requestSetVariableData]\<rparr>)
         else (Failure StandardComponentStructureViolation, s0))"

definition getVariables_body ::
  "'a ProvisioningModule \<Rightarrow> jsnum \<Rightarrow> 'a list \<Rightarrow> 'a api_state \<Rightarrow> 'a api_state" where
  "getVariables_body m itemsPerMessageGetVariables requestGetVariableData s =
     (let getVariableDataSubset = slice (Finite 0) (Some itemsPerMessageGetVariables) requestGetVariableData;
          messageConfirmation = sendCall m (length (calls s)) getVariableDataSubset;
          s1 = s\<lparr>calls := calls s @ [getVariableDataSubset]\<rparr>
      in if \<not> payload_truthy (payload messageConfirmation) then
           s1\<lparr>final_success := False,
              final_payload :=
                (case final_payload s1 of
                   Some xs \<Rightarrow> Some (xs @ getVariableDataSubset)
                 | None \<Rightarrow> Some getVariableDataSubset)\<rparr>
         else s1)"

fun getVariables_loop ::
  "'a ProvisioningModule \<Rightarrow> jsnum \<Rightarrow> 'a list \<Rightarrow> nat \<Rightarrow> 'a api_state
     \<Rightarrow> 'a api_outcome \<times> 'a api_state" where
  "getVariables_loop m n requestGetVariableData 0 s =
     (if length requestGetVariableData > 0 then (Looping, s)
      else (Confirmation (finalMessageConfirmation s), s))"
| "getVariables_loop m n requestGetVariableData (Suc fuel) s =
     (if length requestGetVariableData > 0 then
        getVariables_loop m n requestGetVariableData fuel (getVariables_body m n requestGetVariableData s)
      else (Confirmation (finalMessageConfirmation s), s))"

definition getVariables ::
  "'a ProvisioningModule \<Rightarrow> string \<Rightarrow> 'a list \<Rightarrow> nat \<Rightarrow> 'a api_outcome \<times> 'a api_state" where
  "getVariables m identifier requestGetVariableData fuel =
     (let itemsPerMessageGetVariablesAttributes =
            readAllByQuery m
              \<lparr>stationId = identifier, component_name = ''DeviceDataCtrlr'',
               variable_name = ''ItemsPerMessage'', variable_instance = ''GetVariables'',
               attr_type = Actual\<rparr>;
          s0 = \<lparr>final_success = True, final_payload = None, calls = []\<rparr>
      in if length itemsPerMessageGetVariablesAttributes = 1 then
           getVariables_loop m
             (Number (attr_value (itemsPerMessageGetVariablesAttributes ! 0)))
             requestGetVariableData fuel s0
         else if length itemsPerMessageGetVariablesAttributes = 0 then
           (Confirmation (sendCall m 0 requestGetVariableData), s0\<lparr>calls := [requestGetVariableData]\<rparr>)
         else (Failure StandardComponentStructureViolation, s0))"

section \<open>Notions used to state the properties\<close>

abbreviation ItemsPerMessage_query :: "string \<Rightarrow> string \<Rightarrow> VariableAttributeQuerystring" where
  "ItemsPerMessage_query sid inst \<equiv>
     \<lparr>stationId = sid, component_name = ''DeviceDataCtrlr'', variable_name = ''ItemsPerMessage'',
      variable_instance = inst, attr_type = Actual\<rparr>"

text \<open>The item-level statuses of the response to the \<open>i\<close>-th correlation id: those of
  the decoded response, and none when the response is missing or cannot be decoded.\<close>

definition chunk_results :: "callbacks \<Rightarrow> nat \<Rightarrow> SetVariableStatusEnumType list" where
  "chunk_results cb i =
     (if truthy (cacheCallback cb i) then
        (case setVariableResult cb (the (cacheCallback cb i)) of None \<Rightarrow> [] | Some rs \<Rightarrow> rs)
      else [])"

text \<open>The response to the \<open>i\<close>-th correlation id is present and can be decoded.\<close>

definition response_ok :: "callbacks \<Rightarrow> nat \<Rightarrow> bool" where
  "response_ok cb i =
     (truthy (cacheCallback cb i) \<and> setVariableResult cb (the (cacheCallback cb i)) \<noteq> None)"

text \<open>The invariant of the loop: every id minted so far has been read; a present
  response has been inspected unless both flags are set; the flags hold what the
  inspected responses report, and nothing else.\<close>

definition loop_inv :: "callbacks \<Rightarrow> 'a loop_state \<Rightarrow> bool" where
  "loop_inv cb s =
     (fetched s = [0..<length (sent s)] \<and>
      (\<forall>i<length (sent s). truthy (cacheCallback cb i) \<longrightarrow>
         i \<in> set (inspected s) \<or> (rejectedSetVariable s \<and> rebootSetVariable s)) \<and>
      (\<forall>i\<in>set (inspected s). i < length (sent s) \<and> truthy (cacheCallback cb i) \<and>
         (Rejected \<in> set (chunk_results cb i) \<longrightarrow> rejectedSetVariable s) \<and>
         (RebootRequired \<in> set (chunk_results cb i) \<longrightarrow> rebootSetVariable s)) \<and>
      (rejectedSetVariable s \<longrightarrow> (\<exists>i<length (sent s). Rejected \<in> set (chunk_results cb i))) \<and>
      (rebootSetVariable s \<longrightarrow> (\<exists>i<length (sent s). RebootRequired \<in> set (chunk_results cb i))))"

definition all_present :: "callbacks \<Rightarrow> 'a loop_state \<Rightarrow> bool" where
  "all_present cb s = (\<forall>i<length (sent s). truthy (cacheCallback cb i))"

section \<open>Sample stations and responses\<close>

text \<open>A station whose device model answers the \<^verbatim>\<open>ItemsPerMessage\<close> query for the
  instance \<open>inst\<close> with \<open>attrs\<close> and whose pending items are \<open>items\<close>.\<close>

definition station ::
  "string \<Rightarrow> VariableAttribute list \<Rightarrow> 'a list \<Rightarrow> 'a IDeviceModelRepository" where
  "station inst attrs items =
     \<lparr>readAllByQuerystring = (\<lambda>q. if q = ItemsPerMessage_query (stationId q) inst then attrs else []),
      readAllSetVariableByStationId = (\<lambda>sid. items)\<rparr>"

text \<open>A module whose repository answers likewise and whose \<^verbatim>\<open>sendCall\<close> always gives
  the confirmation \<open>conf\<close>.\<close>

definition module_of ::
  "string \<Rightarrow> VariableAttribute list \<Rightarrow> 'a IMessageConfirmation \<Rightarrow> 'a ProvisioningModule" where
  "module_of inst attrs conf =
     \<lparr>readAllByQuery = (\<lambda>q. if q = ItemsPerMessage_query (stationId q) inst then attrs else []),
      sendCall = (\<lambda>i xs. conf)\<rparr>"

definition accepted_json :: string where
  \<open>accepted_json = ''{"setVariableResult":[{"attributeStatus":"Accepted"}]}''\<close>

definition rejected_json :: string where
  \<open>rejected_json = ''{"setVariableResult":[{"attributeStatus":"Rejected"}]}''\<close>

definition reboot_json :: string where
  \<open>reboot_json = ''{"setVariableResult":[{"attributeStatus":"RebootRequired"}]}''\<close>

definition rejected_reboot_json :: string where
  \<open>rejected_reboot_json =
     ''{"setVariableResult":[{"attributeStatus":"Rejected"},{"attributeStatus":"RebootRequired"}]}''\<close>

text \<open>What \<^verbatim>\<open>JSON.parse\<close> and the read of \<^verbatim>\<open>setVariableResult\<close> give on the four sample
  responses. Every other text counts as one that cannot be decoded; the samples use
  \<^verbatim>\<open>not json\<close> for that.\<close>

definition sample_setVariableResult :: "string \<Rightarrow> SetVariableStatusEnumType list option" where
  "sample_setVariableResult t =
     (if t = accepted_json then Some [Accepted]
      else if t = rejected_json then Some [Rejected]
      else if t = reboot_json then Some [RebootRequired]
      else if t = rejected_reboot_json then Some [Rejected, RebootRequired]
      else None)"

text \<open>The cache answers the first ids with \<open>rs\<close>, in order, and every later id with
  \<open>later\<close>.\<close>

definition responses :: "string option list \<Rightarrow> string option \<Rightarrow> callbacks" where
  "responses rs later =
     \<lparr>cacheCallback = (\<lambda>i. if i < length rs then rs ! i else later),
      setVariableResult = sample_setVariableResult\<rparr>"

section \<open>Facts about the language primitives and one iteration\<close>

lemma slice_from_nat: "slice (Finite (of_nat L)) None xs = drop L xs"
  by (cases "L \<le> length xs") (simp_all add: slice_def ToIntegerOrInfinity_def clamp_index_def Let_def min_def)

lemma slice_upto_nat: "slice (Finite 0) (Some (Finite (of_nat L))) xs = take L xs"
  by (cases "L \<le> length xs") (simp_all add: slice_def ToIntegerOrInfinity_def clamp_index_def Let_def min_def)

lemma slice_from_zero:
  "n = NaN \<or> n = Finite 0 \<Longrightarrow> slice n None xs = xs"
  by (auto simp add: slice_def ToIntegerOrInfinity_def clamp_index_def)

lemma foldl_forEach_body_logs:
  "setVariableData (foldl forEach_body s rs) = setVariableData s \<and>
   sent (foldl forEach_body s rs) = sent s \<and>
   fetched (foldl forEach_body s rs) = fetched s \<and>
   inspected (foldl forEach_body s rs) = inspected s"
  by (induction rs arbitrary: s) (simp_all add: forEach_body_def)

lemma foldl_forEach_body_rejected:
  "rejectedSetVariable (foldl forEach_body s rs) = (rejectedSetVariable s \<or> Rejected \<in> set rs)"
  by (induction rs arbitrary: s) (auto simp add: forEach_body_def)

lemma foldl_forEach_body_reboot:
  "rebootSetVariable (foldl forEach_body s rs) = (rebootSetVariable s \<or> RebootRequired \<in> set rs)"
  by (induction rs arbitrary: s) (auto simp add: forEach_body_def)

lemmas foldl_forEach_body = foldl_forEach_body_logs foldl_forEach_body_rejected foldl_forEach_body_reboot

text \<open>What one iteration does, case by case.\<close>

lemma loop_body_Inr:
  assumes "loop_body cb n s = Inr s'"
  shows "sent s' = sent s @ [(length (sent s), setVariableData s, n)]"
    and "setVariableData s' = slice n None (setVariableData s)"
    and "fetched s' = fetched s @ [length (sent s)]"
    and "truthy (cacheCallback cb (length (sent s)))"
    and "rejectedSetVariable s \<and> rebootSetVariable s \<Longrightarrow>
           inspected s' = inspected s \<and> rejectedSetVariable s' \<and> rebootSetVariable s'"
    and "\<not> (rejectedSetVariable s \<and> rebootSetVariable s) \<Longrightarrow>
           inspected s' = inspected s @ [length (sent s)] \<and>
           setVariableResult cb (the (cacheCallback cb (length (sent s)))) \<noteq> None \<and>
           rejectedSetVariable s' =
             (rejectedSetVariable s \<or> Rejected \<in> set (chunk_results cb (length (sent s)))) \<and>
           rebootSetVariable s' =
             (rebootSetVariable s \<or> RebootRequired \<in> set (chunk_results cb (length (sent s))))"
proof -
  let ?c = "length (sent s)"
  from assms have t: "truthy (cacheCallback cb ?c)"
    by (simp add: loop_body_def Let_def split: if_splits)
  show "truthy (cacheCallback cb ?c)" by (rule t)
  from assms t show "sent s' = sent s @ [(?c, setVariableData s, n)]"
    by (auto simp add: loop_body_def Let_def foldl_forEach_body split: if_splits option.splits)
  from assms t show "setVariableData s' = slice n None (setVariableData s)"
    by (auto simp add: loop_body_def Let_def foldl_forEach_body split: if_splits option.splits)
  from assms t show "fetched s' = fetched s @ [?c]"
    by (auto simp add: loop_body_def Let_def foldl_forEach_body split: if_splits option.splits)
  {
    assume "rejectedSetVariable s \<and> rebootSetVariable s"
    with assms t show "inspected s' = inspected s \<and> rejectedSetVariable s' \<and> rebootSetVariable s'"
      by (auto simp add: loop_body_def Let_def)
  }
  {
    assume "\<not> (rejectedSetVariable s \<and> rebootSetVariable s)"
    with assms t show "inspected s' = inspected s @ [?c] \<and>
           setVariableResult cb (the (cacheCallback cb ?c)) \<noteq> None \<and>
           rejectedSetVariable s' =
             (rejectedSetVariable s \<or> Rejected \<in> set (chunk_results cb ?c)) \<and>
           rebootSetVariable s' =
             (rebootSetVariable s \<or> RebootRequired \<in> set (chunk_results cb ?c))"
      by (auto simp add: loop_body_def Let_def foldl_forEach_body chunk_results_def
          split: option.splits)
  }
qed

lemma loop_body_Inl:
  assumes "loop_body cb n s = Inl (err, s')"
  shows "sent s' = sent s @ [(length (sent s), setVariableData s, n)]"
    and "setVariableData s' = slice n None (setVariableData s)"
    and "fetched s' = fetched s @ [length (sent s)]"
    and "rejectedSetVariable s' = rejectedSetVariable s"
    and "rebootSetVariable s' = rebootSetVariable s"
    and "err = ResponseNotFound \<longleftrightarrow> \<not> truthy (cacheCallback cb (length (sent s)))"
    and "err = ResponseNotFound \<Longrightarrow> inspected s' = inspected s"
    and "err \<noteq> ResponseNotFound \<Longrightarrow>
           err = ResponseNotDecoded \<and> inspected s' = inspected s @ [length (sent s)] \<and>
           \<not> (rejectedSetVariable s \<and> rebootSetVariable s) \<and> \<not> response_ok cb (length (sent s))"
  using assms
  by (auto simp add: loop_body_def Let_def response_ok_def split: if_splits option.splits)

lemma loop_inv_initial: "loop_inv cb (initial_state items)"
  by (simp add: loop_inv_def initial_state_def)

lemma all_present_initial: "all_present cb (initial_state items)"
  by (simp add: all_present_def initial_state_def)

lemma loop_inv_Inr:
  assumes b: "loop_body cb n s = Inr s'" and i: "loop_inv cb s"
  shows "loop_inv cb s'"
proof (cases "rejectedSetVariable s \<and> rebootSetVariable s")
  case True
  note f = loop_body_Inr(1,3,4)[OF b] loop_body_Inr(5)[OF b True]
  from i True show ?thesis
    unfolding loop_inv_def using f
    by (auto simp add: less_Suc_eq)
next
  case False
  note f = loop_body_Inr(1,3,4)[OF b] loop_body_Inr(6)[OF b False]
  from i show ?thesis
    unfolding loop_inv_def using f
    by (auto simp add: less_Suc_eq)
qed

lemma loop_inv_Inl:
  assumes b: "loop_body cb n s = Inl (err, s')" and i: "loop_inv cb s"
  shows "loop_inv cb s'"
proof (cases "err = ResponseNotFound")
  case True
  note f = loop_body_Inl(1,3,4,5,6)[OF b] loop_body_Inl(7)[OF b True]
  from i True show ?thesis
    unfolding loop_inv_def using f
    by (auto simp add: less_Suc_eq)
next
  case False
  from loop_body_Inl(6)[OF b] False have t: "truthy (cacheCallback cb (length (sent s)))"
    by simp
  from loop_body_Inl(8)[OF b False] t
  have c: "chunk_results cb (length (sent s)) = []"
    by (simp add: response_ok_def chunk_results_def)
  note f = loop_body_Inl(1,3,4,5)[OF b] loop_body_Inl(8)[OF b False]
  from i t c show ?thesis
    unfolding loop_inv_def using f
    by (auto simp add: less_Suc_eq)
qed

lemma all_present_Inr:
  assumes b: "loop_body cb n s = Inr s'" and i: "all_present cb s"
  shows "all_present cb s'"
  using i loop_body_Inr(1,4)[OF b] by (auto simp add: all_present_def less_Suc_eq)

lemma while_loop_inv:
  "while_loop cb n fuel s0 = (out, s) \<Longrightarrow> loop_inv cb s0 \<Longrightarrow> loop_inv cb s"
proof (induction fuel arbitrary: s0)
  case 0
  then show ?case by (auto split: if_splits)
next
  case (Suc fuel)
  then show ?case
    by (auto split: if_splits sum.splits prod.splits dest: loop_inv_Inr loop_inv_Inl)
qed

lemma while_loop_Returned:
  "while_loop cb n fuel s0 = (Returned a b, s) \<Longrightarrow>
   a = rejectedSetVariable s \<and> b = rebootSetVariable s \<and> setVariableData s = []"
proof (induction fuel arbitrary: s0)
  case 0
  then show ?case by (auto split: if_splits)
next
  case (Suc fuel)
  then show ?case
    by (auto split: if_splits sum.splits prod.splits)
qed

lemma while_loop_all_present:
  "while_loop cb n fuel s0 = (out, s) \<Longrightarrow> all_present cb s0 \<Longrightarrow>
   (\<forall>e. out \<noteq> Thrown e) \<Longrightarrow> all_present cb s"
proof (induction fuel arbitrary: s0)
  case 0
  then show ?case by (auto split: if_splits)
next
  case (Suc fuel)
  then show ?case
    by (auto split: if_splits sum.splits prod.splits dest: all_present_Inr)
qed

text \<open>More fuel continues the run where less fuel stopped.\<close>

lemma while_loop_add:
  "while_loop cb n (j + d) s0 =
     (case while_loop cb n j s0 of
        (Running, sj) \<Rightarrow> while_loop cb n d sj
      | r \<Rightarrow> r)"
proof (induction j arbitrary: s0)
  case 0
  show ?case by (cases d) simp_all
next
  case (Suc j)
  show ?case
    by (simp add: Suc split: sum.splits prod.splits)
qed

lemma while_loop_flags_mono:
  "while_loop cb n fuel s0 = (out, s) \<Longrightarrow>
   (rejectedSetVariable s0 \<longrightarrow> rejectedSetVariable s) \<and>
   (rebootSetVariable s0 \<longrightarrow> rebootSetVariable s)"
proof (induction fuel arbitrary: s0)
  case 0
  then show ?case by (auto split: if_splits)
next
  case (Suc fuel)
  show ?case
  proof (cases "length (setVariableData s0) > 0")
    case False
    with Suc.prems show ?thesis by auto
  next
    case True
    show ?thesis
    proof (cases "loop_body cb n s0")
      case (Inl p)
      obtain e s' where p: "p = (e, s')" by (cases p)
      with Inl True Suc.prems have "s = s'" by simp
      with loop_body_Inl(4,5)[OF Inl[unfolded p]] show ?thesis by simp
    next
      case (Inr s')
      with True Suc.prems have w: "while_loop cb n fuel s' = (out, s)" by simp
      have "(rejectedSetVariable s0 \<longrightarrow> rejectedSetVariable s') \<and>
            (rebootSetVariable s0 \<longrightarrow> rebootSetVariable s')"
        using loop_body_Inr(5,6)[OF Inr] by blast
      with Suc.IH[OF w] show ?thesis by blast
    qed
  qed
qed

lemma executeSetVariablesAfterBoot_unfold:
  "executeSetVariablesAfterBoot repo cb sid fuel =
     while_loop cb
       (case getItemsPerMessageSetVariablesByStationId repo sid of
          None \<Rightarrow> Finite (of_nat (length (readAllSetVariableByStationId repo sid)))
        | Some n \<Rightarrow> n)
       fuel (initial_state (readAllSetVariableByStationId repo sid))"
  by (simp add: executeSetVariablesAfterBoot_def Let_def)

lemma lookup_none:
  "readAllByQuerystring repo (ItemsPerMessage_query sid ''SetVariables'') = [] \<Longrightarrow>
   getItemsPerMessageSetVariablesByStationId repo sid = None"
  by (simp add: getItemsPerMessageSetVariablesByStationId_def)

lemma lookup_first:
  "readAllByQuerystring repo (ItemsPerMessage_query sid ''SetVariables'') = a # rest \<Longrightarrow>
   getItemsPerMessageSetVariablesByStationId repo sid = Some (Number (attr_value a))"
  by (simp add: getItemsPerMessageSetVariablesByStationId_def)

lemma while_loop_missing_response:
  "while_loop cb n fuel s0 = (out, s) \<Longrightarrow> k \<in> set (fetched s) \<Longrightarrow> k \<notin> set (fetched s0) \<Longrightarrow>
   \<not> truthy (cacheCallback cb k) \<Longrightarrow>
   out = Thrown ResponseNotFound \<and> length (sent s) = k + 1"
proof (induction fuel arbitrary: s0)
  case 0
  then show ?case by (auto split: if_splits)
next
  case (Suc fuel)
  show ?case
  proof (cases "length (setVariableData s0) > 0")
    case False
    with Suc.prems show ?thesis by auto
  next
    case True
    show ?thesis
    proof (cases "loop_body cb n s0")
      case (Inl p)
      obtain e s' where p: "p = (e, s')" by (cases p)
      with Inl True Suc.prems(1) have o: "out = Thrown e" "s = s'" by simp_all
      note f = loop_body_Inl(1,3,6)[OF Inl[unfolded p]]
      from Suc.prems(2,3) o f have "k = length (sent s0)" by auto
      with Suc.prems(4) o f show ?thesis by simp
    next
      case (Inr s')
      with True Suc.prems(1) have w: "while_loop cb n fuel s' = (out, s)" by simp
      note f = loop_body_Inr(3,4)[OF Inr]
      from f Suc.prems(3,4) have "k \<notin> set (fetched s')" by auto
      from Suc.IH[OF w Suc.prems(2) this Suc.prems(4)] show ?thesis .
    qed
  qed
qed

lemma run_inv:
  assumes run: "executeSetVariablesAfterBoot repo cb sid fuel = (out, s)"
  shows "loop_inv cb s"
  using while_loop_inv[OF run[unfolded executeSetVariablesAfterBoot_unfold] loop_inv_initial] .

lemma run_all_present:
  assumes run: "executeSetVariablesAfterBoot repo cb sid fuel = (Returned a b, s)"
  shows "all_present cb s"
  using while_loop_all_present[OF run[unfolded executeSetVariablesAfterBoot_unfold] all_present_initial]
  by simp

lemma returned_flags:
  assumes run: "executeSetVariablesAfterBoot repo cb sid fuel = (Returned a b, s)"
  shows "fetched s = [0..<length (sent s)]"
    and "\<forall>i<length (sent s). truthy (cacheCallback cb i)"
    and "a = (\<exists>i<length (sent s). Rejected \<in> set (chunk_results cb i))"
    and "b = (\<exists>i<length (sent s). RebootRequired \<in> set (chunk_results cb i))"
proof -
  note i = run_inv[OF run, unfolded loop_inv_def]
  note p = run_all_present[OF run, unfolded all_present_def]
  from while_loop_Returned[OF run[unfolded executeSetVariablesAfterBoot_unfold]]
  have ab: "a = rejectedSetVariable s" "b = rebootSetVariable s" by simp_all
  from i show "fetched s = [0..<length (sent s)]" by simp
  from p show "\<forall>i<length (sent s). truthy (cacheCallback cb i)" .
  show "a = (\<exists>i<length (sent s). Rejected \<in> set (chunk_results cb i))"
  proof
    assume a
    with ab i show "\<exists>i<length (sent s). Rejected \<in> set (chunk_results cb i)" by simp
  next
    assume "\<exists>i<length (sent s). Rejected \<in> set (chunk_results cb i)"
    then obtain k where k: "k < length (sent s)" "Rejected \<in> set (chunk_results cb k)" by blast
    from p k have "truthy (cacheCallback cb k)" by simp
    with i k have "k \<in> set (inspected s) \<or> rejectedSetVariable s" by blast
    with i k have "rejectedSetVariable s" by blast
    with ab show a by simp
  qed
  show "b = (\<exists>i<length (sent s). RebootRequired \<in> set (chunk_results cb i))"
  proof
    assume b
    with ab i show "\<exists>i<length (sent s). RebootRequired \<in> set (chunk_results cb i)" by simp
  next
    assume "\<exists>i<length (sent s). RebootRequired \<in> set (chunk_results cb i)"
    then obtain k where k: "k < length (sent s)" "RebootRequired \<in> set (chunk_results cb k)" by blast
    from p k have "truthy (cacheCallback cb k)" by simp
    with i k have "k \<in> set (inspected s) \<or> rebootSetVariable s" by blast
    with i k have "rebootSetVariable s" by blast
    with ab show b by simp
  qed
qed

text \<open>The plan of the loop for a positive whole limit.\<close>

lemma while_loop_plan:
  fixes L :: nat
  assumes L: "0 < L"
  shows "while_loop cb (Finite (of_nat L)) fuel s0 = (out, s) \<Longrightarrow>
     \<exists>m. sent s = sent s0 @ map (\<lambda>i. (length (sent s0) + i, drop (i * L) (setVariableData s0), Finite (of_nat L))) [0..<m] \<and>
         setVariableData s = drop (m * L) (setVariableData s0) \<and>
         m \<le> fuel \<and>
         (\<forall>i<m. i * L < length (setVariableData s0)) \<and>
         (out = Running \<longrightarrow> m = fuel \<and> setVariableData s \<noteq> []) \<and>
         ((\<exists>e. out = Thrown e) \<longrightarrow> 0 < m \<and> \<not> response_ok cb (length (sent s0) + m - 1))"
proof (induction fuel arbitrary: s0)
  case 0
  then show ?case by (auto split: if_splits intro!: exI[of _ 0])
next
  case (Suc fuel)
  let ?n = "Finite (of_nat L) :: jsnum"
  let ?c = "length (sent s0)"
  let ?d = "setVariableData s0"
  show ?case
  proof (cases "length ?d > 0")
    case False
    with Suc.prems show ?thesis by (auto intro!: exI[of _ 0])
  next
    case True
    show ?thesis
    proof (cases "loop_body cb ?n s0")
      case (Inl p)
      obtain e s' where p: "p = (e, s')" by (cases p)
      with Inl True Suc.prems(1) have o: "out = Thrown e" "s = s'" by simp_all
      note f = loop_body_Inl(1,2,6,8)[OF Inl[unfolded p]]
      have nok: "\<not> response_ok cb ?c"
      proof (cases "e = ResponseNotFound")
        case True
        with f(3) show ?thesis by (simp add: response_ok_def)
      next
        case False
        with f(4) show ?thesis by simp
      qed
      show ?thesis
        using o f(1,2) nok True
        by (intro exI[of _ 1]) (simp add: slice_from_nat)
    next
      case (Inr s')
      with True Suc.prems(1) have w: "while_loop cb ?n fuel s' = (out, s)" by simp
      note f = loop_body_Inr(1,2)[OF Inr]
      from Suc.IH[OF w] obtain m where m:
        "sent s = sent s' @ map (\<lambda>i. (length (sent s') + i, drop (i * L) (setVariableData s'), ?n)) [0..<m]"
        "setVariableData s = drop (m * L) (setVariableData s')"
        "m \<le> fuel"
        "\<forall>i<m. i * L < length (setVariableData s')"
        "out = Running \<longrightarrow> m = fuel \<and> setVariableData s \<noteq> []"
        "(\<exists>e. out = Thrown e) \<longrightarrow> 0 < m \<and> \<not> response_ok cb (length (sent s') + m - 1)"
        by blast
      have d': "setVariableData s' = drop L ?d" using f(2) by (simp add: slice_from_nat)
      have l': "length (sent s') = Suc ?c" using f(1) by simp
      have map_eq: "map (\<lambda>i. (?c + i, drop (i * L) ?d, ?n)) [0..<Suc m] =
            (?c, ?d, ?n) # map (\<lambda>i. (Suc ?c + i, drop (i * L) (drop L ?d), ?n)) [0..<m]"
        by (simp add: upt_conv_Cons map_Suc_upt[symmetric] add.commute del: upt_Suc)
      have "sent s = sent s0 @ map (\<lambda>i. (?c + i, drop (i * L) ?d, ?n)) [0..<Suc m]"
        unfolding map_eq using m(1) f(1) d' l' by simp
      moreover have "setVariableData s = drop (Suc m * L) ?d"
        using m(2) d' by (simp add: add.commute)
      moreover have "Suc m \<le> Suc fuel" using m(3) by simp
      moreover have "\<forall>i<Suc m. i * L < length ?d"
      proof (intro allI impI)
        fix i assume "i < Suc m"
        show "i * L < length ?d"
        proof (cases i)
          case 0
          with True show ?thesis by simp
        next
          case (Suc j)
          with \<open>i < Suc m\<close> m(4) d' have "j * L < length ?d - L" by simp
          with Suc show ?thesis by simp
        qed
      qed
      moreover have "out = Running \<longrightarrow> Suc m = Suc fuel \<and> setVariableData s \<noteq> []"
        using m(5) by simp
      moreover have "(\<exists>e. out = Thrown e) \<longrightarrow> 0 < Suc m \<and> \<not> response_ok cb (?c + Suc m - 1)"
        using m(6) l' by (cases m) auto
      ultimately show ?thesis by blast
    qed
  qed
qed

lemma concat_take_drop:
  "concat (map (\<lambda>i. take L (drop (i * L) xs)) [0..<m]) = take (m * L) xs"
proof (induction m)
  case 0
  show ?case by simp
next
  case (Suc m)
  have "take (m * L) xs @ take L (drop (m * L) xs) = take (m * L + L) xs"
    by (simp add: take_add)
  with Suc show ?case by (simp add: add.commute)
qed

lemma ceil_upper: "0 < L \<Longrightarrow> k * L < n \<Longrightarrow> Suc k \<le> (n + L - 1) div L"
  for L k n :: nat
  by (simp add: less_eq_div_iff_mult_less_eq)

lemma ceil_lower: "0 < L \<Longrightarrow> n \<le> m * L \<Longrightarrow> (n + L - 1) div L \<le> m"
  for L m n :: nat
proof -
  assume L: "0 < L" and n: "n \<le> m * L"
  then have "n + L - 1 < Suc m * L" by simp
  with L have "(n + L - 1) div L < Suc m" by (simp add: div_less_iff_less_mult)
  then show ?thesis by simp
qed

lemma run_plan:
  fixes L :: nat
  assumes L: "0 < L"
    and items: "readAllSetVariableByStationId repo sid = items"
    and limit: "getItemsPerMessageSetVariablesByStationId repo sid = Some (Finite (of_nat L))"
    and fuel: "(length items + L - 1) div L \<le> fuel"
    and run: "executeSetVariablesAfterBoot repo cb sid fuel = (out, s)"
  shows "out \<noteq> Running"
    and "sent s = map (\<lambda>i. (i, drop (i * L) items, Finite (of_nat L))) [0..<length (sent s)]"
    and "length (sent s) \<le> (length items + L - 1) div L"
    and "\<forall>i<length (sent s). i * L < length items"
    and "(\<forall>i<(length items + L - 1) div L. response_ok cb i) \<Longrightarrow> \<exists>a b. out = Returned a b"
    and "out = Returned a b \<Longrightarrow> length (sent s) = (length items + L - 1) div L"
proof -
  let ?c = "(length items + L - 1) div L"
  from run have w: "while_loop cb (Finite (of_nat L)) fuel (initial_state items) = (out, s)"
    by (simp add: executeSetVariablesAfterBoot_unfold items limit)
  from while_loop_plan[OF L w] obtain m where m:
    "sent s = map (\<lambda>i. (i, drop (i * L) items, Finite (of_nat L))) [0..<m]"
    "setVariableData s = drop (m * L) items"
    "m \<le> fuel"
    "\<forall>i<m. i * L < length items"
    "out = Running \<longrightarrow> m = fuel \<and> setVariableData s \<noteq> []"
    "(\<exists>e. out = Thrown e) \<longrightarrow> 0 < m \<and> \<not> response_ok cb (m - 1)"
    by (auto simp add: initial_state_def)
  from m(1) have len: "length (sent s) = m" by simp
  show p2: "sent s = map (\<lambda>i. (i, drop (i * L) items, Finite (of_nat L))) [0..<length (sent s)]"
    using m(1) len by simp
  show p4: "\<forall>i<length (sent s). i * L < length items" using m(4) len by simp
  show p3: "length (sent s) \<le> ?c"
  proof (cases m)
    case 0
    with len show ?thesis by simp
  next
    case (Suc k)
    with m(4) have "k * L < length items" by simp
    from ceil_upper[OF L this] Suc len show ?thesis by simp
  qed
  show p1: "out \<noteq> Running"
  proof
    assume r: "out = Running"
    with m(5) m(2) have "m = fuel" "m * L < length items" by auto
    then have "\<not> length items \<le> m * L" by simp
    moreover from fuel \<open>m = fuel\<close> have "?c \<le> m" by simp
    moreover have "length items \<le> ?c * L"
    proof -
      have "length items + L - 1 < Suc ?c * L"
        using L div_less_iff_less_mult[of L "length items + L - 1" "Suc ?c"] by simp
      then show ?thesis by simp
    qed
    ultimately show False
      by (meson le_trans mult_le_mono1)
  qed
  {
    assume ok: "\<forall>i<?c. response_ok cb i"
    show "\<exists>a b. out = Returned a b"
    proof (cases out)
      case (Returned a b)
      then show ?thesis by simp
    next
      case (Thrown e)
      with m(6) have "0 < m" "\<not> response_ok cb (m - 1)" by auto
      moreover from \<open>0 < m\<close> p3 len have "m - 1 < ?c" by simp
      ultimately show ?thesis using ok by blast
    next
      case Running
      with p1 show ?thesis by simp
    qed
  }
  {
    assume "out = Returned a b"
    with while_loop_Returned w have "setVariableData s = []" by blast
    with m(2) have "length items \<le> m * L" by simp
    from ceil_lower[OF L this] p3 len show "length (sent s) = ?c" by simp
  }
qed

lemma chunk_positive:
  "chunk (i, xs, Finite (of_nat L)) = take L xs"
  by (simp add: chunk_def slice_upto_nat)

section \<open>Loops that make no progress\<close>

text \<open>A limit whose slice takes nothing away leaves the loop where it is.\<close>

lemma while_loop_stuck:
  assumes n: "n = NaN \<or> n = Finite 0"
  shows "while_loop cb n fuel s0 = (out, s) \<Longrightarrow> setVariableData s0 \<noteq> [] \<Longrightarrow>
     setVariableData s = setVariableData s0 \<and>
     (\<forall>a b. out \<noteq> Returned a b) \<and>
     (\<exists>m\<le>fuel.
        sent s = sent s0 @ map (\<lambda>i. (length (sent s0) + i, setVariableData s0, n)) [0..<m] \<and>
        (out = Running \<longrightarrow> m = fuel) \<and>
        ((\<exists>e. out = Thrown e) \<longrightarrow> 0 < m \<and> \<not> response_ok cb (length (sent s0) + m - 1)))"
proof (induction fuel arbitrary: s0)
  case 0
  then show ?case by (auto split: if_splits)
next
  case (Suc fuel)
  let ?c = "length (sent s0)"
  let ?d = "setVariableData s0"
  from Suc.prems(2) have pos: "length ?d > 0" by simp
  show ?case
  proof (cases "loop_body cb n s0")
    case (Inl p)
    obtain e s' where p: "p = (e, s')" by (cases p)
    with Inl pos Suc.prems(1) have o: "out = Thrown e" "s = s'" by simp_all
    note f = loop_body_Inl(1,2,6,8)[OF Inl[unfolded p]]
    have nok: "\<not> response_ok cb ?c"
    proof (cases "e = ResponseNotFound")
      case True
      with f(3) show ?thesis by (simp add: response_ok_def)
    next
      case False
      with f(4) show ?thesis by simp
    qed
    have "sent s = sent s0 @ map (\<lambda>i. (?c + i, ?d, n)) [0..<1]" using o f(1) by simp
    moreover have "setVariableData s = ?d" using o f(2) slice_from_zero[OF n] by simp
    ultimately show ?thesis using o nok
      by (intro conjI exI[of _ 1]) simp_all
  next
    case (Inr s')
    with pos Suc.prems(1) have w: "while_loop cb n fuel s' = (out, s)" by simp
    note f = loop_body_Inr(1,2)[OF Inr]
    have d': "setVariableData s' = ?d" using f(2) slice_from_zero[OF n] by simp
    have l': "length (sent s') = Suc ?c" using f(1) by simp
    from Suc.IH[OF w] d' Suc.prems(2) obtain m where m:
      "setVariableData s = ?d" "\<forall>a b. out \<noteq> Returned a b" "m \<le> fuel"
      "sent s = sent s' @ map (\<lambda>i. (length (sent s') + i, ?d, n)) [0..<m]"
      "out = Running \<longrightarrow> m = fuel"
      "(\<exists>e. out = Thrown e) \<longrightarrow> 0 < m \<and> \<not> response_ok cb (length (sent s') + m - 1)"
      by auto
    have map_eq: "map (\<lambda>i. (?c + i, ?d, n)) [0..<Suc m] =
          (?c, ?d, n) # map (\<lambda>i. (Suc ?c + i, ?d, n)) [0..<m]"
      by (simp add: upt_conv_Cons map_Suc_upt[symmetric] del: upt_Suc)
    have "sent s = sent s0 @ map (\<lambda>i. (?c + i, ?d, n)) [0..<Suc m]"
      unfolding map_eq using m(4) f(1) l' by simp
    moreover have "(\<exists>e. out = Thrown e) \<longrightarrow> 0 < Suc m \<and> \<not> response_ok cb (?c + Suc m - 1)"
      using m(6) l' by (cases m) auto
    moreover have "Suc m \<le> Suc fuel" "out = Running \<longrightarrow> Suc m = Suc fuel"
      using m(3,5) by simp_all
    ultimately show ?thesis using m(1,2) by blast
  qed
qed

lemma setVariables_body_calls:
  "calls (setVariables_body m n xs s) = calls s @ [slice (Finite 0) (Some n) xs]"
  by (simp add: setVariables_body_def Let_def)

lemma getVariables_body_calls:
  "calls (getVariables_body m n xs s) = calls s @ [slice (Finite 0) (Some n) xs]"
  by (simp add: getVariables_body_def Let_def)

lemma setVariables_loop_stuck:
  "xs \<noteq> [] \<Longrightarrow> setVariables_loop m n xs fuel s0 = (out, s) \<Longrightarrow>
   out = Looping \<and> calls s = calls s0 @ replicate fuel (slice (Finite 0) (Some n) xs)"
proof (induction fuel arbitrary: s0)
  case 0
  then show ?case by auto
next
  case (Suc fuel)
  from Suc.prems have "setVariables_loop m n xs fuel (setVariables_body m n xs s0) = (out, s)"
    by simp
  from Suc.IH[OF Suc.prems(1) this] show ?case
    by (simp add: setVariables_body_calls replicate_app_Cons_same)
qed

lemma getVariables_loop_stuck:
  "xs \<noteq> [] \<Longrightarrow> getVariables_loop m n xs fuel s0 = (out, s) \<Longrightarrow>
   out = Looping \<and> calls s = calls s0 @ replicate fuel (slice (Finite 0) (Some n) xs)"
proof (induction fuel arbitrary: s0)
  case 0
  then show ?case by auto
next
  case (Suc fuel)
  from Suc.prems have "getVariables_loop m n xs fuel (getVariables_body m n xs s0) = (out, s)"
    by simp
  from Suc.IH[OF Suc.prems(1) this] show ?case
    by (simp add: getVariables_body_calls replicate_app_Cons_same)
qed

lemma lookup_first_get:
  "readAllByQuerystring repo (ItemsPerMessage_query sid ''GetVariables'') = a # rest \<Longrightarrow>
   getItemsPerMessageGetVariablesByStationId repo sid = Some (Number (attr_value a))"
  by (simp add: getItemsPerMessageGetVariablesByStationId_def)

lemma chunk_numeral:
  "chunk (i, xs, Finite (numeral k)) = take (numeral k) xs"
  using chunk_positive[of i xs "numeral k"] by simp

section \<open>The properties of the specification\<close>

subsection \<open>C1: the chunks of a positive whole limit\<close>

text \<open>
  Claim C1. For a non-empty item list of length \<open>n\<close> and a discovered limit that is a
  positive whole number \<open>L\<close>, the chunk loop of \<^verbatim>\<open>executeSetVariablesAfterBoot\<close> performs
  exactly \<open>ceil(n/L)\<close> dispatch iterations, written \<open>(n + L - 1) div L\<close>: the \<open>i\<close>-th call
  of the send callback is handed the items from position \<open>i * L\<close> on, its chunk is the
  next \<open>min L (n - i * L)\<close> items in the original order, every chunk but the last has
  \<open>L\<close> items, and the chunks concatenated are the original list.

  The loop ends early only by an exception: a run that throws (a response is missing or
  cannot be decoded, claim C7) has dispatched a prefix of that plan. So the theorem
  says: with fuel for \<open>ceil(n/L)\<close> iterations the run ends; what it has dispatched is
  always a prefix of the plan; it returns when every response is present and can be
  decoded; and a run that returns has dispatched the whole plan.
\<close>

theorem chunk_loop_plan:
  fixes L :: nat
  assumes L: "0 < L"
    and items: "readAllSetVariableByStationId repo sid = items"
    and nonempty: "items \<noteq> []"
    and limit: "getItemsPerMessageSetVariablesByStationId repo sid = Some (Finite (of_nat L))"
    and fuel: "(length items + L - 1) div L \<le> fuel"
    and run: "executeSetVariablesAfterBoot repo cb sid fuel = (out, s)"
  shows "out \<noteq> Running \<and>
         length (sent s) \<le> (length items + L - 1) div L \<and>
         (\<forall>i<length (sent s).
            sent s ! i = (i, drop (i * L) items, Finite (of_nat L)) \<and>
            chunk (sent s ! i) = take (min L (length items - i * L)) (drop (i * L) items)) \<and>
         ((\<forall>i<(length items + L - 1) div L. response_ok cb i) \<longrightarrow> (\<exists>a b. out = Returned a b)) \<and>
         ((\<exists>a b. out = Returned a b) \<longrightarrow>
            length (sent s) = (length items + L - 1) div L \<and>
            concat (map chunk (sent s)) = items \<and>
            (\<forall>i. Suc i < length (sent s) \<longrightarrow> length (chunk (sent s ! i)) = L))"
proof -
  let ?c = "(length items + L - 1) div L"
  let ?m = "length (sent s)"
  note p = run_plan[OF L items limit fuel run]
  have nth: "sent s ! i = (i, drop (i * L) items, Finite (of_nat L))" if "i < ?m" for i
  proof -
    from that have "map (\<lambda>i. (i, drop (i * L) items, Finite (of_nat L) :: jsnum)) [0..<?m] ! i
        = (i, drop (i * L) items, Finite (of_nat L))"
      by simp
    with p(2) show ?thesis by simp
  qed
  have ch: "chunk (sent s ! i) = take L (drop (i * L) items)" if "i < ?m" for i
    using nth[OF that] by (simp add: chunk_positive)
  have c3: "\<forall>i<?m. sent s ! i = (i, drop (i * L) items, Finite (of_nat L)) \<and>
            chunk (sent s ! i) = take (min L (length items - i * L)) (drop (i * L) items)"
    using nth ch by (simp add: min_def)
  have c5: "length (sent s) = ?c \<and> concat (map chunk (sent s)) = items \<and>
            (\<forall>i. Suc i < ?m \<longrightarrow> length (chunk (sent s ! i)) = L)"
    if r: "\<exists>a b. out = Returned a b"
  proof (intro conjI allI impI)
    from r p(6) show len: "?m = ?c" by blast
    from r obtain a b where "out = Returned a b" by blast
    with while_loop_Returned run have e: "setVariableData s = []"
      unfolding executeSetVariablesAfterBoot_unfold by blast
    have "map chunk (sent s) = map (\<lambda>i. take L (drop (i * L) items)) [0..<?m]"
      by (rule nth_equalityI) (simp_all add: ch)
    then have "concat (map chunk (sent s)) = take (?m * L) items"
      by (simp add: concat_take_drop)
    moreover have "length items \<le> ?m * L"
    proof -
      have "length items + L - 1 < Suc ?c * L"
        using L div_less_iff_less_mult[of L "length items + L - 1" "Suc ?c"] by simp
      with len show ?thesis by simp
    qed
    ultimately show "concat (map chunk (sent s)) = items" by simp
  next
    fix i assume i: "Suc i < ?m"
    with p(4) have "Suc i * L < length items" by blast
    then have "L \<le> length items - i * L" by simp
    with i show "length (chunk (sent s ! i)) = L" by (simp add: ch)
  qed
  from p(1) p(3) c3 p(5) c5 show ?thesis by blast
qed

theorem chunk_loop_plan_witness:
  "fst (executeSetVariablesAfterBoot
          (station ''SetVariables'' [\<lparr>attr_value = Str ''2''\<rparr>] [1, 2, 3, 4, 5 :: nat])
          (responses [] (Some accepted_json)) ''cs001'' 3) = Returned False False \<and>
   length (sent (snd (executeSetVariablesAfterBoot
          (station ''SetVariables'' [\<lparr>attr_value = Str ''2''\<rparr>] [1, 2, 3, 4, 5 :: nat])
          (responses [] (Some accepted_json)) ''cs001'' 3))) = 3 \<and>
   map chunk (sent (snd (executeSetVariablesAfterBoot
          (station ''SetVariables'' [\<lparr>attr_value = Str ''2''\<rparr>] [1, 2, 3, 4, 5 :: nat])
          (responses [] (Some accepted_json)) ''cs001'' 3))) = [[1, 2], [3, 4], [5]] \<and>
   concat (map chunk (sent (snd (executeSetVariablesAfterBoot
          (station ''SetVariables'' [\<lparr>attr_value = Str ''2''\<rparr>] [1, 2, 3, 4, 5 :: nat])
          (responses [] (Some accepted_json)) ''cs001'' 3)))) = [1, 2, 3, 4, 5]"
proof -
  let ?items = "[1, 2, 3, 4, 5 :: nat]"
  let ?repo = "station ''SetVariables'' [\<lparr>attr_value = Str ''2''\<rparr>] ?items"
  let ?cb = "responses [] (Some accepted_json)"
  let ?run = "executeSetVariablesAfterBoot ?repo ?cb ''cs001'' 3"
  have h1: "(0::nat) < 2" by simp
  have h2: "readAllSetVariableByStationId ?repo ''cs001'' = ?items" by (simp add: station_def)
  have h3: "?items \<noteq> []" by simp
  have h4: "getItemsPerMessageSetVariablesByStationId ?repo ''cs001'' = Some (Finite (of_nat 2))"
    by code_simp
  have h5: "(length ?items + 2 - 1) div 2 \<le> (3::nat)" by simp
  have h6: "?run = (fst ?run, snd ?run)" by simp
  have ok: "\<forall>i<(length ?items + 2 - 1) div 2. response_ok ?cb i"
    by (simp add: response_ok_def responses_def truthy_def sample_setVariableResult_def
        accepted_json_def)
  have r: "fst ?run = Returned False False" by code_simp
  have c: "map chunk (sent (snd ?run)) = [[1, 2], [3, 4], [5]]" by code_simp
  from chunk_loop_plan[OF h1 h2 h3 h4 h5 h6] ok r c show ?thesis by simp
qed

subsection \<open>C2: the returned pair is the disjunction over all responses\<close>

text \<open>
  Claim C2. Whenever \<^verbatim>\<open>executeSetVariablesAfterBoot\<close> returns, for any item list and
  limit, it has read the response of every chunk it dispatched and each of them was
  present, and the returned pair is the disjunction, over all chunks and all item-level
  results in their responses, of "status is Rejected" and of "status is RebootRequired".
  In particular 25 items with the limit 10 give three chunks of 10, 10 and 5 items, and
  a Rejected in the response to the second chunk with a RebootRequired in the response
  to the third give \<open>(true, true)\<close>, provided the three responses are present and can be
  decoded.
\<close>

theorem returned_flags_are_or:
  "(\<forall>a b s. executeSetVariablesAfterBoot repo cb sid fuel = (Returned a b, s) \<longrightarrow>
      fetched s = [0..<length (sent s)] \<and>
      (\<forall>i<length (sent s). truthy (cacheCallback cb i)) \<and>
      a = (\<exists>i<length (sent s). Rejected \<in> set (chunk_results cb i)) \<and>
      b = (\<exists>i<length (sent s). RebootRequired \<in> set (chunk_results cb i))) \<and>
   (length (readAllSetVariableByStationId repo sid) = 25 \<and>
    getItemsPerMessageSetVariablesByStationId repo sid = Some (Finite 10) \<and>
    3 \<le> fuel \<and>
    (\<forall>i<3. response_ok cb i) \<and>
    Rejected \<in> set (chunk_results cb 1) \<and>
    RebootRequired \<in> set (chunk_results cb 2) \<longrightarrow>
      fst (executeSetVariablesAfterBoot repo cb sid fuel) = Returned True True \<and>
      map (length \<circ> chunk) (sent (snd (executeSetVariablesAfterBoot repo cb sid fuel)))
        = [10, 10, 5])"
proof (rule conjI; intro allI impI)
  fix a b s
  assume run: "executeSetVariablesAfterBoot repo cb sid fuel = (Returned a b, s)"
  note r = returned_flags[OF run]
  show "fetched s = [0..<length (sent s)] \<and>
      (\<forall>i<length (sent s). truthy (cacheCallback cb i)) \<and>
      a = (\<exists>i<length (sent s). Rejected \<in> set (chunk_results cb i)) \<and>
      b = (\<exists>i<length (sent s). RebootRequired \<in> set (chunk_results cb i))"
    using r by blast
next
  let ?run = "executeSetVariablesAfterBoot repo cb sid fuel"
  let ?items = "readAllSetVariableByStationId repo sid"
  assume h: "length ?items = 25 \<and>
    getItemsPerMessageSetVariablesByStationId repo sid = Some (Finite 10) \<and>
    3 \<le> fuel \<and> (\<forall>i<3. response_ok cb i) \<and>
    Rejected \<in> set (chunk_results cb 1) \<and> RebootRequired \<in> set (chunk_results cb 2)"
  have L: "(0::nat) < 10" by simp
  have c: "(length ?items + 10 - 1) div 10 = (3::nat)" using h by simp
  have lim: "getItemsPerMessageSetVariablesByStationId repo sid = Some (Finite (of_nat 10))"
    using h by simp
  have fuel: "(length ?items + 10 - 1) div 10 \<le> fuel" using h c by simp
  have run: "?run = (fst ?run, snd ?run)" by simp
  note p = run_plan[OF L refl lim fuel run]
  from p(5) h c obtain a b where ab: "fst ?run = Returned a b" by auto
  from p(6)[OF ab] c have len: "length (sent (snd ?run)) = 3" by simp
  from run ab have run': "?run = (Returned a b, snd ?run)" by simp
  note r = returned_flags(3,4)[OF run']
  from r h len have "a" "b" by auto
  with ab have flags: "fst ?run = Returned True True" by simp
  have "sent (snd ?run) = map (\<lambda>i. (i, drop (i * 10) ?items, Finite (of_nat 10))) [0..<3]"
    using p(2) len by simp
  then have "map (length \<circ> chunk) (sent (snd ?run)) = [10, 10, 5]"
    using h by (simp add: chunk_numeral upt_rec[of 0] upt_rec[of 1] upt_rec[of 2] numeral_3_eq_3)
  with flags show "fst ?run = Returned True True \<and>
      map (length \<circ> chunk) (sent (snd ?run)) = [10, 10, 5]"
    by simp
qed

theorem returned_flags_are_or_witness:
  "fst (executeSetVariablesAfterBoot
          (station ''SetVariables'' [\<lparr>attr_value = Str ''10''\<rparr>] [0..<25])
          (responses [Some accepted_json, Some rejected_json, Some reboot_json] None)
          ''cs001'' 3) = Returned True True \<and>
   map (length \<circ> chunk) (sent (snd (executeSetVariablesAfterBoot
          (station ''SetVariables'' [\<lparr>attr_value = Str ''10''\<rparr>] [0..<25])
          (responses [Some accepted_json, Some rejected_json, Some reboot_json] None)
          ''cs001'' 3))) = [10, 10, 5] \<and>
   fetched (snd (executeSetVariablesAfterBoot
          (station ''SetVariables'' [\<lparr>attr_value = Str ''10''\<rparr>] [0..<25])
          (responses [Some accepted_json, Some rejected_json, Some reboot_json] None)
          ''cs001'' 3)) = [0, 1, 2]"
proof -
  let ?repo = "station ''SetVariables'' [\<lparr>attr_value = Str ''10''\<rparr>] [0..<25]"
  let ?cb = "responses [Some accepted_json, Some rejected_json, Some reboot_json] None"
  have h1: "length (readAllSetVariableByStationId ?repo ''cs001'') = 25"
    by (simp add: station_def)
  have h2: "getItemsPerMessageSetVariablesByStationId ?repo ''cs001'' = Some (Finite 10)"
    by code_simp
  have h3: "(3::nat) \<le> 3" by simp
  have h4: "\<forall>i<3. response_ok ?cb i"
    by (simp add: response_ok_def responses_def truthy_def sample_setVariableResult_def
        accepted_json_def rejected_json_def reboot_json_def less_Suc_eq numeral_3_eq_3)
  have h5: "Rejected \<in> set (chunk_results ?cb 1)" by code_simp
  have h6: "RebootRequired \<in> set (chunk_results ?cb 2)" by code_simp
  let ?run = "executeSetVariablesAfterBoot ?repo ?cb ''cs001'' 3"
  note t = returned_flags_are_or[of ?repo ?cb "''cs001''" 3]
  from t h1 h2 h3 h4 h5 h6
  have r: "fst ?run = Returned True True"
    and c: "map (length \<circ> chunk) (sent (snd ?run)) = [10, 10, 5]"
    by blast+
  from r have "?run = (Returned True True, snd ?run)"
    by (metis prod.collapse)
  with t have f: "fetched (snd ?run) = [0..<length (sent (snd ?run))]" by blast
  have "length (map (length \<circ> chunk) (sent (snd ?run))) = length [10, 10, 5 :: nat]"
    by (simp only: c)
  then have l: "length (sent (snd ?run)) = 3" by simp
  have u: "[0..<3] = [0, 1, 2 :: nat]" by code_simp
  have "fetched (snd ?run) = [0, 1, 2]" by (simp only: f l u)
  with r c show ?thesis by (simp only: simp_thms)
qed

subsection \<open>C3: a response is inspected unless both flags are set\<close>

text \<open>
  Claim C3 says that every present response is inspected and folded into the flags, also
  when both flags are already true. The loop does otherwise on purpose: a present
  response that arrives when both flags are true is read from the cache and then skipped
  by \<^verbatim>\<open>continue\<close>, before \<^verbatim>\<open>JSON.parse\<close>. The counterexample is a run of two chunks in
  which the first response sets both flags and the second one is text that is no JSON
  at all; the run returns \<open>(true, true)\<close> and never hands the second response to the
  parser.
\<close>

theorem skipped_response_counterexample:
  "truthy (cacheCallback (responses [Some rejected_reboot_json] (Some ''not json'')) 1) \<and>
   fst (executeSetVariablesAfterBoot
          (station ''SetVariables'' [\<lparr>attr_value = Str ''1''\<rparr>] [1, 2 :: nat])
          (responses [Some rejected_reboot_json] (Some ''not json'')) ''cs001'' 2)
     = Returned True True \<and>
   fetched (snd (executeSetVariablesAfterBoot
          (station ''SetVariables'' [\<lparr>attr_value = Str ''1''\<rparr>] [1, 2 :: nat])
          (responses [Some rejected_reboot_json] (Some ''not json'')) ''cs001'' 2))
     = [0, 1] \<and>
   inspected (snd (executeSetVariablesAfterBoot
          (station ''SetVariables'' [\<lparr>attr_value = Str ''1''\<rparr>] [1, 2 :: nat])
          (responses [Some rejected_reboot_json] (Some ''not json'')) ''cs001'' 2))
     = [0]"
  by code_simp

text \<open>
  Claim C3 as amended. In every run, whatever its end, the response of every dispatched
  chunk is read from the cache. A present response is inspected unless both flags are
  already true when it arrives; in that case the iteration reads it, leaves the flags
  and the parser alone and goes on to the next chunk. So a present response is either
  inspected or both flags are true, and the statuses of every inspected response are
  folded into the flags by disjunction.
\<close>

theorem responses_read_and_folded:
  assumes run: "executeSetVariablesAfterBoot repo cb sid fuel = (out, s)"
  shows "fetched s = [0..<length (sent s)] \<and>
    (\<forall>i<length (sent s). truthy (cacheCallback cb i) \<longrightarrow>
       i \<in> set (inspected s) \<or> (rejectedSetVariable s \<and> rebootSetVariable s)) \<and>
    (\<forall>i\<in>set (inspected s).
       (Rejected \<in> set (chunk_results cb i) \<longrightarrow> rejectedSetVariable s) \<and>
       (RebootRequired \<in> set (chunk_results cb i) \<longrightarrow> rebootSetVariable s)) \<and>
    (\<forall>st :: 'a loop_state.
       rejectedSetVariable st \<and> rebootSetVariable st \<and>
       truthy (cacheCallback cb (length (sent st))) \<longrightarrow>
       (\<exists>st'. loop_body cb n st = Inr st' \<and> inspected st' = inspected st \<and>
              fetched st' = fetched st @ [length (sent st)] \<and>
              rejectedSetVariable st' \<and> rebootSetVariable st'))"
proof -
  note i = run_inv[OF run, unfolded loop_inv_def]
  have skip: "\<exists>st'. loop_body cb n st = Inr st' \<and> inspected st' = inspected st \<and>
              fetched st' = fetched st @ [length (sent st)] \<and>
              rejectedSetVariable st' \<and> rebootSetVariable st'"
    if "rejectedSetVariable st \<and> rebootSetVariable st \<and> truthy (cacheCallback cb (length (sent st)))"
    for st :: "'a loop_state"
    using that by (simp add: loop_body_def Let_def)
  from i skip show ?thesis by blast
qed

theorem responses_read_and_folded_witness:
  "fetched (snd (executeSetVariablesAfterBoot
          (station ''SetVariables'' [\<lparr>attr_value = Str ''1''\<rparr>] [1, 2 :: nat])
          (responses [Some rejected_reboot_json] (Some ''not json'')) ''cs001'' 2))
     = [0..<length (sent (snd (executeSetVariablesAfterBoot
          (station ''SetVariables'' [\<lparr>attr_value = Str ''1''\<rparr>] [1, 2 :: nat])
          (responses [Some rejected_reboot_json] (Some ''not json'')) ''cs001'' 2)))] \<and>
   0 \<in> set (inspected (snd (executeSetVariablesAfterBoot
          (station ''SetVariables'' [\<lparr>attr_value = Str ''1''\<rparr>] [1, 2 :: nat])
          (responses [Some rejected_reboot_json] (Some ''not json'')) ''cs001'' 2))) \<and>
   rejectedSetVariable (snd (executeSetVariablesAfterBoot
          (station ''SetVariables'' [\<lparr>attr_value = Str ''1''\<rparr>] [1, 2 :: nat])
          (responses [Some rejected_reboot_json] (Some ''not json'')) ''cs001'' 2)) \<and>
   rebootSetVariable (snd (executeSetVariablesAfterBoot
          (station ''SetVariables'' [\<lparr>attr_value = Str ''1''\<rparr>] [1, 2 :: nat])
          (responses [Some rejected_reboot_json] (Some ''not json'')) ''cs001'' 2))"
proof -
  let ?repo = "station ''SetVariables'' [\<lparr>attr_value = Str ''1''\<rparr>] [1, 2 :: nat]"
  let ?cb = "responses [Some rejected_reboot_json] (Some ''not json'')"
  let ?run = "executeSetVariablesAfterBoot ?repo ?cb ''cs001'' 2"
  have h1: "?run = (fst ?run, snd ?run)" by simp
  have i: "0 \<in> set (inspected (snd ?run))" by code_simp
  have r: "Rejected \<in> set (chunk_results ?cb 0)" "RebootRequired \<in> set (chunk_results ?cb 0)"
    by code_simp+
  from responses_read_and_folded[OF h1] i r show ?thesis by blast
qed

subsection \<open>C4: two or more limit records\<close>

text \<open>
  Claim C4 says that every limit lookup fails with a consistency error when the query
  returns two records or more, and never picks the first. The route layer does fail, but
  the lookup of the service, which \<^verbatim>\<open>executeSetVariablesAfterBoot\<close> uses, returns the
  coerced value of the first record, as its documentation announces ("In that case, the
  first attribute will be returned"). The counterexample is a station with the two
  records \<^verbatim>\<open>10\<close> and \<^verbatim>\<open>20\<close>: the lookup gives 10 and the operation runs with it.
\<close>

theorem first_record_counterexample:
  "getItemsPerMessageSetVariablesByStationId
     (station ''SetVariables'' [\<lparr>attr_value = Str ''10''\<rparr>, \<lparr>attr_value = Str ''20''\<rparr>]
        [1, 2, 3 :: nat]) ''cs001'' = Some (Finite 10) \<and>
   fst (executeSetVariablesAfterBoot
     (station ''SetVariables'' [\<lparr>attr_value = Str ''10''\<rparr>, \<lparr>attr_value = Str ''20''\<rparr>]
        [1, 2, 3 :: nat])
     (responses [] (Some accepted_json)) ''cs001'' 1) = Returned False False \<and>
   sent (snd (executeSetVariablesAfterBoot
     (station ''SetVariables'' [\<lparr>attr_value = Str ''10''\<rparr>, \<lparr>attr_value = Str ''20''\<rparr>]
        [1, 2, 3 :: nat])
     (responses [] (Some accepted_json)) ''cs001'' 1)) = [(0, [1, 2, 3], Finite 10)]"
  by code_simp

text \<open>
  Claim C4 as amended. In the route layer, \<^verbatim>\<open>setVariables\<close> and \<^verbatim>\<open>getVariables\<close> fail with
  the error "Violation of Standard Component Structure" when their query returns two
  records or more, and send nothing. The lookups of the service return the coerced value
  of the first record in that case, and \<^verbatim>\<open>executeSetVariablesAfterBoot\<close> runs its loop
  with that value as the limit.
\<close>

theorem several_limit_records:
  "(2 \<le> length (readAllByQuery m (ItemsPerMessage_query identifier ''SetVariables'')) \<longrightarrow>
      fst (setVariables m identifier xs fuel) = Failure StandardComponentStructureViolation \<and>
      calls (snd (setVariables m identifier xs fuel)) = []) \<and>
   (2 \<le> length (readAllByQuery m (ItemsPerMessage_query identifier ''GetVariables'')) \<longrightarrow>
      fst (getVariables m identifier xs fuel) = Failure StandardComponentStructureViolation \<and>
      calls (snd (getVariables m identifier xs fuel)) = []) \<and>
   (readAllByQuerystring repo (ItemsPerMessage_query sid ''SetVariables'') = a # b # rest \<longrightarrow>
      getItemsPerMessageSetVariablesByStationId repo sid = Some (Number (attr_value a)) \<and>
      executeSetVariablesAfterBoot repo cb sid fuel =
        while_loop cb (Number (attr_value a)) fuel
          (initial_state (readAllSetVariableByStationId repo sid))) \<and>
   (readAllByQuerystring repo (ItemsPerMessage_query sid ''GetVariables'') = a # b # rest \<longrightarrow>
      getItemsPerMessageGetVariablesByStationId repo sid = Some (Number (attr_value a)))"
  by (auto simp add: setVariables_def getVariables_def Let_def lookup_first lookup_first_get
      executeSetVariablesAfterBoot_unfold)

theorem several_limit_records_witness:
  "fst (setVariables
          (module_of ''SetVariables'' [\<lparr>attr_value = Str ''10''\<rparr>, \<lparr>attr_value = Str ''20''\<rparr>]
             \<lparr>success = True, payload = Some (Text ''sent'')\<rparr>)
          ''cs001'' [1, 2, 3 :: nat] 5) = Failure StandardComponentStructureViolation \<and>
   fst (getVariables
          (module_of ''GetVariables'' [\<lparr>attr_value = Str ''10''\<rparr>, \<lparr>attr_value = Str ''20''\<rparr>]
             \<lparr>success = True, payload = Some (Text ''sent'')\<rparr>)
          ''cs001'' [1, 2, 3 :: nat] 5) = Failure StandardComponentStructureViolation \<and>
   getItemsPerMessageSetVariablesByStationId
     (station ''SetVariables'' [\<lparr>attr_value = Str ''10''\<rparr>, \<lparr>attr_value = Str ''20''\<rparr>]
        [1, 2, 3 :: nat]) ''cs001'' = Some (Finite 10) \<and>
   getItemsPerMessageGetVariablesByStationId
     (station ''GetVariables'' [\<lparr>attr_value = Str ''10''\<rparr>, \<lparr>attr_value = Str ''20''\<rparr>]
        [1, 2, 3 :: nat]) ''cs001'' = Some (Finite 10)"
proof -
  let ?attrs = "[\<lparr>attr_value = Str ''10''\<rparr>, \<lparr>attr_value = Str ''20''\<rparr>]"
  let ?conf = "\<lparr>success = True, payload = Some (Text ''sent'')\<rparr> :: nat IMessageConfirmation"
  let ?ms = "module_of ''SetVariables'' ?attrs ?conf"
  let ?mg = "module_of ''GetVariables'' ?attrs ?conf"
  let ?rs = "station ''SetVariables'' ?attrs [1, 2, 3 :: nat]"
  let ?rg = "station ''GetVariables'' ?attrs [1, 2, 3 :: nat]"
  have h1: "2 \<le> length (readAllByQuery ?ms (ItemsPerMessage_query ''cs001'' ''SetVariables''))"
    by (simp add: module_of_def)
  have h2: "2 \<le> length (readAllByQuery ?mg (ItemsPerMessage_query ''cs001'' ''GetVariables''))"
    by (simp add: module_of_def)
  have h3: "readAllByQuerystring ?rs (ItemsPerMessage_query ''cs001'' ''SetVariables'')
              = \<lparr>attr_value = Str ''10''\<rparr> # \<lparr>attr_value = Str ''20''\<rparr> # []"
    by (simp add: station_def)
  have h4: "readAllByQuerystring ?rg (ItemsPerMessage_query ''cs001'' ''GetVariables'')
              = \<lparr>attr_value = Str ''10''\<rparr> # \<lparr>attr_value = Str ''20''\<rparr> # []"
    by (simp add: station_def)
  have n: "Number (attr_value \<lparr>attr_value = Str ''10''\<rparr>) = Finite 10" by code_simp
  from several_limit_records[of ?ms "''cs001''" "[1, 2, 3]" 5 ?rs "''cs001''"] h1 h3 n
  have a: "fst (setVariables ?ms ''cs001'' [1, 2, 3] 5) = Failure StandardComponentStructureViolation"
    and b: "getItemsPerMessageSetVariablesByStationId ?rs ''cs001'' = Some (Finite 10)"
    by simp_all
  from several_limit_records[of ?mg "''cs001''" "[1, 2, 3]" 5 ?rg "''cs001''"] h2 h4 n
  have c: "fst (getVariables ?mg ''cs001'' [1, 2, 3] 5) = Failure StandardComponentStructureViolation"
    and d: "getItemsPerMessageGetVariablesByStationId ?rg ''cs001'' = Some (Finite 10)"
    by simp_all
  from a b c d show ?thesis by simp
qed

subsection \<open>C5: the value of the single limit record\<close>

text \<open>
  Claim C5 says that a lookup that finds exactly one record fails with a configuration
  error when the record's text is not numeric or not positive. The code has no such
  error: the lookup returns \<^verbatim>\<open>Number(value)\<close> as it is. The counterexample: the texts
  \<^verbatim>\<open>abc\<close>, \<^verbatim>\<open>0\<close> and \<^verbatim>\<open>-5\<close> give the limits \<^verbatim>\<open>NaN\<close>, 0 and -5, and the operation hands
  \<^verbatim>\<open>NaN\<close> to the send callback as the limit.
\<close>

theorem unchecked_limit_counterexample:
  "getItemsPerMessageSetVariablesByStationId
     (station ''SetVariables'' [\<lparr>attr_value = Str ''abc''\<rparr>] [1, 2, 3 :: nat]) ''cs001''
     = Some NaN \<and>
   getItemsPerMessageSetVariablesByStationId
     (station ''SetVariables'' [\<lparr>attr_value = Str ''0''\<rparr>] [1, 2, 3 :: nat]) ''cs001''
     = Some (Finite 0) \<and>
   getItemsPerMessageSetVariablesByStationId
     (station ''SetVariables'' [\<lparr>attr_value = Str ''-5''\<rparr>] [1, 2, 3 :: nat]) ''cs001''
     = Some (Finite (- 5)) \<and>
   sent (snd (executeSetVariablesAfterBoot
     (station ''SetVariables'' [\<lparr>attr_value = Str ''abc''\<rparr>] [1, 2, 3 :: nat])
     (responses [] (Some accepted_json)) ''cs001'' 1)) = [(0, [1, 2, 3], NaN)]"
  by code_simp

text \<open>
  Claim C5 as amended. A lookup that finds exactly one record returns the coercion
  \<^verbatim>\<open>Number(value)\<close> of its value, whatever the text is: it raises no error, and it does not
  return \<^verbatim>\<open>null\<close> ("no limit") either. \<^verbatim>\<open>executeSetVariablesAfterBoot\<close> runs its loop with
  that value as the limit.
\<close>

theorem single_limit_record_coerced:
  assumes single: "readAllByQuerystring repo (ItemsPerMessage_query sid ''SetVariables'') = [a]"
  shows "getItemsPerMessageSetVariablesByStationId repo sid = Some (Number (attr_value a)) \<and>
         executeSetVariablesAfterBoot repo cb sid fuel =
           while_loop cb (Number (attr_value a)) fuel
             (initial_state (readAllSetVariableByStationId repo sid))"
  by (simp add: lookup_first[OF single] executeSetVariablesAfterBoot_unfold)

theorem single_limit_record_coerced_witness:
  "getItemsPerMessageSetVariablesByStationId
     (station ''SetVariables'' [\<lparr>attr_value = Str ''abc''\<rparr>] [1, 2, 3 :: nat]) ''cs001''
     = Some NaN"
proof -
  let ?repo = "station ''SetVariables'' [\<lparr>attr_value = Str ''abc''\<rparr>] [1, 2, 3 :: nat]"
  have h: "readAllByQuerystring ?repo (ItemsPerMessage_query ''cs001'' ''SetVariables'')
             = [\<lparr>attr_value = Str ''abc''\<rparr>]"
    by (simp add: station_def)
  have n: "Number (attr_value \<lparr>attr_value = Str ''abc''\<rparr>) = NaN" by code_simp
  from single_limit_record_coerced[OF h] n show ?thesis by simp
qed

subsection \<open>C6: the flags never go back to false\<close>

text \<open>
  Claim C6. In every run of \<^verbatim>\<open>executeSetVariablesAfterBoot\<close> the two flags are monotonic
  across the chunk folds. The state after \<open>j\<close> folds is the final state of the run with
  fuel \<open>j\<close> (or the state in which the run ended before that). For \<open>j \<le> k\<close>, a flag that
  is true after \<open>j\<close> folds is true after \<open>k\<close> folds, and the pair a run returns is the
  pair of flags of its final state.
\<close>

theorem flags_monotonic:
  assumes jk: "j \<le> k"
    and rj: "executeSetVariablesAfterBoot repo cb sid j = (oj, sj)"
    and rk: "executeSetVariablesAfterBoot repo cb sid k = (ok, sk)"
  shows "(rejectedSetVariable sj \<longrightarrow> rejectedSetVariable sk) \<and>
         (rebootSetVariable sj \<longrightarrow> rebootSetVariable sk) \<and>
         (\<forall>a b. ok = Returned a b \<longrightarrow> a = rejectedSetVariable sk \<and> b = rebootSetVariable sk)"
proof -
  from jk obtain d where k: "k = j + d" by (auto simp add: le_iff_add)
  let ?n = "case getItemsPerMessageSetVariablesByStationId repo sid of
          None \<Rightarrow> Finite (of_nat (length (readAllSetVariableByStationId repo sid)))
        | Some n \<Rightarrow> n"
  let ?s0 = "initial_state (readAllSetVariableByStationId repo sid)"
  from rj have wj: "while_loop cb ?n j ?s0 = (oj, sj)"
    by (simp add: executeSetVariablesAfterBoot_unfold)
  from rk have wk: "while_loop cb ?n (j + d) ?s0 = (ok, sk)"
    by (simp add: executeSetVariablesAfterBoot_unfold k)
  have "(rejectedSetVariable sj \<longrightarrow> rejectedSetVariable sk) \<and>
        (rebootSetVariable sj \<longrightarrow> rebootSetVariable sk)"
  proof (cases "oj = Running")
    case True
    with wk wj have "while_loop cb ?n d sj = (ok, sk)"
      by (simp add: while_loop_add)
    then show ?thesis by (rule while_loop_flags_mono)
  next
    case False
    with wk wj have "sk = sj"
      by (cases oj) (simp_all add: while_loop_add)
    then show ?thesis by simp
  qed
  moreover have "\<forall>a b. ok = Returned a b \<longrightarrow> a = rejectedSetVariable sk \<and> b = rebootSetVariable sk"
    using while_loop_Returned wk by blast
  ultimately show ?thesis by blast
qed

theorem flags_monotonic_witness:
  "rejectedSetVariable (snd (executeSetVariablesAfterBoot
          (station ''SetVariables'' [\<lparr>attr_value = Str ''10''\<rparr>] [0..<25])
          (responses [Some accepted_json, Some rejected_json, Some reboot_json] None)
          ''cs001'' 2)) \<and>
   rejectedSetVariable (snd (executeSetVariablesAfterBoot
          (station ''SetVariables'' [\<lparr>attr_value = Str ''10''\<rparr>] [0..<25])
          (responses [Some accepted_json, Some rejected_json, Some reboot_json] None)
          ''cs001'' 3)) \<and>
   fst (executeSetVariablesAfterBoot
          (station ''SetVariables'' [\<lparr>attr_value = Str ''10''\<rparr>] [0..<25])
          (responses [Some accepted_json, Some rejected_json, Some reboot_json] None)
          ''cs001'' 3) = Returned True True"
proof -
  let ?repo = "station ''SetVariables'' [\<lparr>attr_value = Str ''10''\<rparr>] [0..<25]"
  let ?cb = "responses [Some accepted_json, Some rejected_json, Some reboot_json] None"
  let ?r2 = "executeSetVariablesAfterBoot ?repo ?cb ''cs001'' 2"
  let ?r3 = "executeSetVariablesAfterBoot ?repo ?cb ''cs001'' 3"
  have h1: "(2::nat) \<le> 3" by simp
  have h2: "?r2 = (fst ?r2, snd ?r2)" by simp
  have h3: "?r3 = (fst ?r3, snd ?r3)" by simp
  have a: "rejectedSetVariable (snd ?r2)" by code_simp
  have b: "fst ?r3 = Returned True True" by code_simp
  from flags_monotonic[OF h1 h2 h3] a b show ?thesis by simp
qed

subsection \<open>C7: a missing response aborts the operation\<close>

text \<open>
  Claim C7. If the response read for chunk \<open>k\<close> (counting from zero) is absent
  (\<^verbatim>\<open>null\<close>) or present but empty (the empty string), the operation ends with the error
  "SetVariables response not found", the send callback has been called exactly \<open>k + 1\<close>
  times, so no later chunk is dispatched, and no pair of flags is returned.
\<close>

theorem missing_response_aborts:
  assumes run: "executeSetVariablesAfterBoot repo cb sid fuel = (out, s)"
    and k: "k \<in> set (fetched s)"
    and missing: "cacheCallback cb k = None \<or> cacheCallback cb k = Some []"
  shows "out = Thrown ResponseNotFound \<and> length (sent s) = k + 1 \<and>
         (\<forall>a b. out \<noteq> Returned a b)"
proof -
  from missing have "\<not> truthy (cacheCallback cb k)" by (auto simp add: truthy_def)
  with while_loop_missing_response[OF run[unfolded executeSetVariablesAfterBoot_unfold] k]
  show ?thesis by (simp add: initial_state_def)
qed

theorem missing_response_aborts_witness:
  "fst (executeSetVariablesAfterBoot
          (station ''SetVariables'' [\<lparr>attr_value = Str ''1''\<rparr>] [1, 2, 3 :: nat])
          (responses [Some accepted_json] None) ''cs001'' 5) = Thrown ResponseNotFound \<and>
   length (sent (snd (executeSetVariablesAfterBoot
          (station ''SetVariables'' [\<lparr>attr_value = Str ''1''\<rparr>] [1, 2, 3 :: nat])
          (responses [Some accepted_json] None) ''cs001'' 5))) = 2"
proof -
  let ?repo = "station ''SetVariables'' [\<lparr>attr_value = Str ''1''\<rparr>] [1, 2, 3 :: nat]"
  let ?cb = "responses [Some accepted_json] None"
  let ?run = "executeSetVariablesAfterBoot ?repo ?cb ''cs001'' 5"
  have h1: "?run = (fst ?run, snd ?run)" by simp
  have h2: "1 \<in> set (fetched (snd ?run))" by code_simp
  have h3: "cacheCallback ?cb 1 = None \<or> cacheCallback ?cb 1 = Some []"
    by (simp add: responses_def)
  from missing_response_aborts[OF h1 h2 h3] show ?thesis by simp
qed

subsection \<open>C8: without a limit, one chunk or none\<close>

text \<open>
  Claim C8. When the device model holds no \<^verbatim>\<open>ItemsPerMessage\<close> attribute for
  \<^verbatim>\<open>SetVariables\<close>, \<^verbatim>\<open>executeSetVariablesAfterBoot\<close> calls the send callback exactly once
  for a non-empty item list, handing it all items with the list's length as the limit,
  so that the chunk is the whole list; this holds whether the response then arrives or
  not. For an empty list the callback is never called and the result is
  \<open>(false, false)\<close>. One iteration of fuel is enough for the run to end.
\<close>

theorem no_limit_single_chunk:
  assumes none: "readAllByQuerystring repo (ItemsPerMessage_query sid ''SetVariables'') = []"
    and items: "readAllSetVariableByStationId repo sid = items"
    and run: "executeSetVariablesAfterBoot repo cb sid fuel = (out, s)"
    and fuel: "0 < fuel"
  shows "(items \<noteq> [] \<longrightarrow>
            out \<noteq> Running \<and>
            sent s = [(0, items, Finite (of_nat (length items)))] \<and>
            map chunk (sent s) = [items]) \<and>
         (items = [] \<longrightarrow> out = Returned False False \<and> sent s = [])"
proof (intro conjI impI)
  assume e: "items = []"
  from run show "out = Returned False False"
    by (cases fuel) (auto simp add: executeSetVariablesAfterBoot_unfold items e initial_state_def)
  from run show "sent s = []"
    by (cases fuel) (auto simp add: executeSetVariablesAfterBoot_unfold items e initial_state_def)
next
  assume ne: "items \<noteq> []"
  let ?n = "Finite (of_nat (length items)) :: jsnum"
  let ?s0 = "initial_state items"
  from fuel obtain f where f: "fuel = Suc f" by (cases fuel) auto
  from run have w: "while_loop cb ?n (Suc f) ?s0 = (out, s)"
    by (simp add: executeSetVariablesAfterBoot_unfold lookup_none[OF none] items f)
  have d0: "setVariableData ?s0 = items" "sent ?s0 = []"
    by (simp_all add: initial_state_def)
  have both: "out \<noteq> Running \<and> sent s = [(0, items, ?n)]"
  proof (cases "loop_body cb ?n ?s0")
    case (Inl p)
    obtain e s' where p: "p = (e, s')" by (cases p)
    from w Inl p ne d0 have "out = Thrown e" "s = s'" by simp_all
    with loop_body_Inl(1)[OF Inl[unfolded p]] d0 show ?thesis by simp
  next
    case (Inr s')
    have "setVariableData s' = []"
      using loop_body_Inr(2)[OF Inr] d0 by (simp add: slice_from_nat)
    with w Inr ne d0 have "out = Returned (rejectedSetVariable s') (rebootSetVariable s')" "s = s'"
      by (cases f; simp)+
    with loop_body_Inr(1)[OF Inr] d0 show ?thesis by simp
  qed
  then show "out \<noteq> Running" and "sent s = [(0, items, ?n)]" by simp_all
  with both show "map chunk (sent s) = [items]"
    by (simp add: chunk_def slice_upto_nat)
qed

theorem no_limit_single_chunk_witness:
  "fst (executeSetVariablesAfterBoot (station ''SetVariables'' [] [1, 2, 3 :: nat])
          (responses [] (Some accepted_json)) ''cs001'' 1) = Returned False False \<and>
   sent (snd (executeSetVariablesAfterBoot (station ''SetVariables'' [] [1, 2, 3 :: nat])
          (responses [] (Some accepted_json)) ''cs001'' 1)) = [(0, [1, 2, 3], Finite 3)] \<and>
   map chunk (sent (snd (executeSetVariablesAfterBoot (station ''SetVariables'' [] [1, 2, 3 :: nat])
          (responses [] (Some accepted_json)) ''cs001'' 1))) = [[1, 2, 3]]"
proof -
  let ?repo = "station ''SetVariables'' [] [1, 2, 3 :: nat]"
  let ?cb = "responses [] (Some accepted_json)"
  let ?run = "executeSetVariablesAfterBoot ?repo ?cb ''cs001'' 1"
  have h1: "readAllByQuerystring ?repo (ItemsPerMessage_query ''cs001'' ''SetVariables'') = []"
    by (simp add: station_def)
  have h2: "readAllSetVariableByStationId ?repo ''cs001'' = [1, 2, 3]"
    by (simp add: station_def)
  have h3: "?run = (fst ?run, snd ?run)" by simp
  have h4: "(0::nat) < 1" by simp
  have r: "fst ?run = Returned False False" by code_simp
  from no_limit_single_chunk[OF h1 h2 h3 h4] r show ?thesis
    by (simp add: chunk_def slice_def ToIntegerOrInfinity_def clamp_index_def)
qed

subsection \<open>C9: a limit of zero or NaN\<close>

text \<open>
  Claim C9. For a non-empty item list, when the single \<^verbatim>\<open>ItemsPerMessage\<close> record
  coerces to 0 or to \<^verbatim>\<open>NaN\<close>, \<^verbatim>\<open>slice\<close> returns the whole list, so the remaining list
  never shrinks: every call of the send callback is handed all items, and the function
  never returns, whatever the fuel. The loop itself never ends: a run that is cut
  off after \<open>fuel\<close> iterations has dispatched \<open>fuel\<close> times, and this is what happens for
  every \<open>fuel\<close> while the responses are present and can be decoded. The only other end is
  the exception of claim C7 at a response that is missing or cannot be decoded.
\<close>

theorem zero_limit_never_returns:
  assumes items: "readAllSetVariableByStationId repo sid = items"
    and nonempty: "items \<noteq> []"
    and single: "readAllByQuerystring repo (ItemsPerMessage_query sid ''SetVariables'') = [a]"
    and zero: "Number (attr_value a) = NaN \<or> Number (attr_value a) = Finite 0"
    and run: "executeSetVariablesAfterBoot repo cb sid fuel = (out, s)"
  shows "setVariableData s = items \<and>
         (\<forall>x y. out \<noteq> Returned x y) \<and>
         (\<forall>i<length (sent s). sent s ! i = (i, items, Number (attr_value a))) \<and>
         (out = Running \<longrightarrow> length (sent s) = fuel) \<and>
         ((\<forall>i<fuel. response_ok cb i) \<longrightarrow> out = Running)"
proof -
  let ?n = "Number (attr_value a)"
  from run have w: "while_loop cb ?n fuel (initial_state items) = (out, s)"
    by (simp add: executeSetVariablesAfterBoot_unfold items lookup_first[OF single])
  from while_loop_stuck[OF zero w] nonempty obtain m where m:
    "setVariableData s = items" "\<forall>x y. out \<noteq> Returned x y" "m \<le> fuel"
    "sent s = map (\<lambda>i. (i, items, ?n)) [0..<m]"
    "out = Running \<longrightarrow> m = fuel"
    "(\<exists>e. out = Thrown e) \<longrightarrow> 0 < m \<and> \<not> response_ok cb (m - 1)"
    by (auto simp add: initial_state_def)
  from m(4) have len: "length (sent s) = m" by simp
  have nth: "\<forall>i<length (sent s). sent s ! i = (i, items, ?n)"
    using m(4) len by simp
  have "out = Running" if ok: "\<forall>i<fuel. response_ok cb i"
  proof (cases out)
    case (Returned x y)
    with m(2) show ?thesis by blast
  next
    case (Thrown e)
    with m(6) have "0 < m" "\<not> response_ok cb (m - 1)" by auto
    with m(3) ok show ?thesis by simp
  next
    case Running
    then show ?thesis .
  qed
  with m(1,2,5) nth len show ?thesis by simp
qed

theorem zero_limit_never_returns_witness:
  "setVariableData (snd (executeSetVariablesAfterBoot
          (station ''SetVariables'' [\<lparr>attr_value = Str ''0''\<rparr>] [1, 2, 3 :: nat])
          (responses [] (Some accepted_json)) ''cs001'' 4)) = [1, 2, 3] \<and>
   fst (executeSetVariablesAfterBoot
          (station ''SetVariables'' [\<lparr>attr_value = Str ''0''\<rparr>] [1, 2, 3 :: nat])
          (responses [] (Some accepted_json)) ''cs001'' 4) = Running \<and>
   length (sent (snd (executeSetVariablesAfterBoot
          (station ''SetVariables'' [\<lparr>attr_value = Str ''0''\<rparr>] [1, 2, 3 :: nat])
          (responses [] (Some accepted_json)) ''cs001'' 4))) = 4"
proof -
  let ?repo = "station ''SetVariables'' [\<lparr>attr_value = Str ''0''\<rparr>] [1, 2, 3 :: nat]"
  let ?cb = "responses [] (Some accepted_json)"
  let ?run = "executeSetVariablesAfterBoot ?repo ?cb ''cs001'' 4"
  have h1: "readAllSetVariableByStationId ?repo ''cs001'' = [1, 2, 3]" by (simp add: station_def)
  have h2: "[1, 2, 3 :: nat] \<noteq> []" by simp
  have h3: "readAllByQuerystring ?repo (ItemsPerMessage_query ''cs001'' ''SetVariables'')
              = [\<lparr>attr_value = Str ''0''\<rparr>]"
    by (simp add: station_def)
  have n: "Number (attr_value \<lparr>attr_value = Str ''0''\<rparr>) = Finite 0" by code_simp
  then have h4: "Number (attr_value \<lparr>attr_value = Str ''0''\<rparr>) = NaN \<or>
                 Number (attr_value \<lparr>attr_value = Str ''0''\<rparr>) = Finite 0" by simp
  have h5: "?run = (fst ?run, snd ?run)" by simp
  have ok: "\<forall>i<4. response_ok ?cb i"
    by (simp add: response_ok_def responses_def truthy_def sample_setVariableResult_def
        accepted_json_def)
  from zero_limit_never_returns[OF h1 h2 h3 h4 h5] ok show ?thesis by simp
qed

subsection \<open>C10: the route layer never shortens its list\<close>

text \<open>
  Claim C10. In \<^verbatim>\<open>setVariables\<close> and \<^verbatim>\<open>getVariables\<close> of the route layer the loop body never
  changes the list that the loop condition tests. For a request with a non-empty item
  list and exactly one limit record, every iteration hands the same subset
  \<^verbatim>\<open>slice(0, limit)\<close> to \<^verbatim>\<open>sendCall\<close>, and the endpoint returns no confirmation: after
  \<open>fuel\<close> iterations, for every \<open>fuel\<close>, the loop is still running and has sent that subset
  \<open>fuel\<close> times.
\<close>

theorem route_layer_never_confirms:
  assumes nonempty: "xs \<noteq> []"
  shows "(readAllByQuery m (ItemsPerMessage_query identifier ''SetVariables'') = [a] \<longrightarrow>
            fst (setVariables m identifier xs fuel) = Looping \<and>
            calls (snd (setVariables m identifier xs fuel)) =
              replicate fuel (slice (Finite 0) (Some (Number (attr_value a))) xs)) \<and>
         (readAllByQuery m (ItemsPerMessage_query identifier ''GetVariables'') = [a] \<longrightarrow>
            fst (getVariables m identifier xs fuel) = Looping \<and>
            calls (snd (getVariables m identifier xs fuel)) =
              replicate fuel (slice (Finite 0) (Some (Number (attr_value a))) xs))"
proof (intro conjI impI)
  let ?s0 = "\<lparr>final_success = True, final_payload = None, calls = []\<rparr> :: 'a api_state"
  let ?n = "Number (attr_value a)"
  {
    assume q: "readAllByQuery m (ItemsPerMessage_query identifier ''SetVariables'') = [a]"
    then have e: "setVariables m identifier xs fuel = setVariables_loop m ?n xs fuel ?s0"
      by (simp add: setVariables_def)
    have "setVariables_loop m ?n xs fuel ?s0 =
          (fst (setVariables_loop m ?n xs fuel ?s0), snd (setVariables_loop m ?n xs fuel ?s0))"
      by simp
    from setVariables_loop_stuck[OF nonempty this] e
    show "fst (setVariables m identifier xs fuel) = Looping"
      and "calls (snd (setVariables m identifier xs fuel)) =
           replicate fuel (slice (Finite 0) (Some ?n) xs)"
      by simp_all
  }
  {
    assume q: "readAllByQuery m (ItemsPerMessage_query identifier ''GetVariables'') = [a]"
    then have e: "getVariables m identifier xs fuel = getVariables_loop m ?n xs fuel ?s0"
      by (simp add: getVariables_def)
    have "getVariables_loop m ?n xs fuel ?s0 =
          (fst (getVariables_loop m ?n xs fuel ?s0), snd (getVariables_loop m ?n xs fuel ?s0))"
      by simp
    from getVariables_loop_stuck[OF nonempty this] e
    show "fst (getVariables m identifier xs fuel) = Looping"
      and "calls (snd (getVariables m identifier xs fuel)) =
           replicate fuel (slice (Finite 0) (Some ?n) xs)"
      by simp_all
  }
qed

theorem route_layer_never_confirms_witness:
  "fst (setVariables
          (module_of ''SetVariables'' [\<lparr>attr_value = Str ''2''\<rparr>]
             \<lparr>success = True, payload = Some (Text ''sent'')\<rparr>)
          ''cs001'' [1, 2, 3 :: nat] 4) = Looping \<and>
   calls (snd (setVariables
          (module_of ''SetVariables'' [\<lparr>attr_value = Str ''2''\<rparr>]
             \<lparr>success = True, payload = Some (Text ''sent'')\<rparr>)
          ''cs001'' [1, 2, 3 :: nat] 4)) = [[1, 2], [1, 2], [1, 2], [1, 2]] \<and>
   fst (getVariables
          (module_of ''GetVariables'' [\<lparr>attr_value = Str ''2''\<rparr>]
             \<lparr>success = True, payload = Some (Text ''sent'')\<rparr>)
          ''cs001'' [1, 2, 3 :: nat] 4) = Looping \<and>
   calls (snd (getVariables
          (module_of ''GetVariables'' [\<lparr>attr_value = Str ''2''\<rparr>]
             \<lparr>success = True, payload = Some (Text ''sent'')\<rparr>)
          ''cs001'' [1, 2, 3 :: nat] 4)) = [[1, 2], [1, 2], [1, 2], [1, 2]]"
proof -
  let ?conf = "\<lparr>success = True, payload = Some (Text ''sent'')\<rparr> :: nat IMessageConfirmation"
  let ?ms = "module_of ''SetVariables'' [\<lparr>attr_value = Str ''2''\<rparr>] ?conf"
  let ?mg = "module_of ''GetVariables'' [\<lparr>attr_value = Str ''2''\<rparr>] ?conf"
  have h0: "[1, 2, 3 :: nat] \<noteq> []" by simp
  have h1: "readAllByQuery ?ms (ItemsPerMessage_query ''cs001'' ''SetVariables'')
              = [\<lparr>attr_value = Str ''2''\<rparr>]"
    by (simp add: module_of_def)
  have h2: "readAllByQuery ?mg (ItemsPerMessage_query ''cs001'' ''GetVariables'')
              = [\<lparr>attr_value = Str ''2''\<rparr>]"
    by (simp add: module_of_def)
  have e: "replicate 4 (slice (Finite 0) (Some (Number (attr_value \<lparr>attr_value = Str ''2''\<rparr>)))
             [1, 2, 3 :: nat]) = [[1, 2], [1, 2], [1, 2], [1, 2]]"
    by code_simp
  from route_layer_never_confirms[OF h0, of ?ms "''cs001''" "\<lparr>attr_value = Str ''2''\<rparr>" 4] h1 e
  have a: "fst (setVariables ?ms ''cs001'' [1, 2, 3] 4) = Looping"
    and b: "calls (snd (setVariables ?ms ''cs001'' [1, 2, 3] 4)) = [[1, 2], [1, 2], [1, 2], [1, 2]]"
    by simp_all
  from route_layer_never_confirms[OF h0, of ?mg "''cs001''" "\<lparr>attr_value = Str ''2''\<rparr>" 4] h2 e
  have c: "fst (getVariables ?mg ''cs001'' [1, 2, 3] 4) = Looping"
    and d: "calls (snd (getVariables ?mg ''cs001'' [1, 2, 3] 4)) = [[1, 2], [1, 2], [1, 2], [1, 2]]"
    by simp_all
  from a b c d show ?thesis by simp
qed

end
